theory Spec2Isabelle
  imports Main
begin

section \<open>Values and errors of the filter library\<close>

text \<open>
  The filters of \<^verbatim>\<open>filter_plugins/comprehension.py\<close> (Python 2) work on the data a
  template hands them. A value is \<^verbatim>\<open>None\<close>, a \<^verbatim>\<open>bool\<close>, an integer, a byte string
  (\<^verbatim>\<open>str\<close>), a list, a tuple, a set or a dict. A set is given by its elements in
  iteration order and a dict by its entries in iteration order. Floating-point and
  complex numbers are left out of the model.

  Python 2 has two integer types: an integer that fits the machine word is an
  \<^verbatim>\<open>int\<close>, and one beyond \<^verbatim>\<open>sys.maxint\<close> (or below \<^verbatim>\<open>-sys.maxint - 1\<close>) is a
  \<^verbatim>\<open>long\<close>. Both are \<open>PInt\<close> here, and the two print, compare and hash alike; only
  \<^verbatim>\<open>isinstance(v, int)\<close> tells them apart, by the size of the number.
\<close>

datatype pyval =
    PNone
  | PBool bool
  | PInt int
  | PStr string
  | PList "pyval list"
  | PTuple "pyval list"
  | PSet "pyval list"
  | PDict "(pyval \<times> pyval) list"

text \<open>Every \<^verbatim>\<open>raise\<close> of the source and every exception of a built-in is a value.\<close>

datatype error =
    ValueError string
  | AssertionError string
  | TypeError
  | AttributeError
  | KeyError
  | IndexError
  | RuntimeError

text \<open>Python's truth value of an object, as \<^verbatim>\<open>if v\<close> and \<^verbatim>\<open>not v\<close> read it.\<close>

fun truthy :: "pyval \<Rightarrow> bool" where
  "truthy PNone = False"
| "truthy (PBool b) = b"
| "truthy (PInt i) = (i \<noteq> 0)"
| "truthy (PStr s) = (s \<noteq> [])"
| "truthy (PList xs) = (xs \<noteq> [])"
| "truthy (PTuple xs) = (xs \<noteq> [])"
| "truthy (PSet xs) = (xs \<noteq> [])"
| "truthy (PDict d) = (d \<noteq> [])"

text \<open>\<^verbatim>\<open>hash(v)\<close> succeeds on these values only; a dict key or set element is one of them.\<close>

fun hashable :: "pyval \<Rightarrow> bool" where
  "hashable PNone = True"
| "hashable (PBool b) = True"
| "hashable (PInt i) = True"
| "hashable (PStr s) = True"
| "hashable (PTuple xs) = list_all hashable xs"
| "hashable (PList xs) = False"
| "hashable (PSet xs) = False"
| "hashable (PDict d) = False"

text \<open>
  \<^verbatim>\<open>a == b\<close> on the values of the model: \<^verbatim>\<open>True == 1\<close> and \<^verbatim>\<open>False == 0\<close>, sequences
  of one type are equal elementwise, sets and dicts are equal as sets and mappings, and
  values of unlike types are unequal.
\<close>

fun num_of :: "pyval \<Rightarrow> int option" where
  "num_of (PBool b) = Some (if b then 1 else 0)"
| "num_of (PInt i) = Some i"
| "num_of v = None"

fun py_eq :: "pyval \<Rightarrow> pyval \<Rightarrow> bool" where
  "py_eq PNone w = (w = PNone)"
| "py_eq (PBool a) w = (num_of w = Some (if a then 1 else 0))"
| "py_eq (PInt a) w = (num_of w = Some a)"
| "py_eq (PStr a) w = (w = PStr a)"
| "py_eq (PList xs) w = (case w of PList ys \<Rightarrow> list_all2 py_eq xs ys | _ \<Rightarrow> False)"
| "py_eq (PTuple xs) w = (case w of PTuple ys \<Rightarrow> list_all2 py_eq xs ys | _ \<Rightarrow> False)"
| "py_eq (PSet xs) w =
     (case w of
        PSet ys \<Rightarrow> list_all (\<lambda>x. list_ex (\<lambda>y. py_eq x y) ys) xs
                  \<and> list_all (\<lambda>y. list_ex (\<lambda>x. py_eq x y) xs) ys
      | _ \<Rightarrow> False)"
| "py_eq (PDict d) w =
     (case w of
        PDict e \<Rightarrow> length d = length e
                  \<and> list_all (\<lambda>(k, v). list_ex (\<lambda>(k', v'). py_eq k k' \<and> py_eq v v') e) d
      | _ \<Rightarrow> False)"


section \<open>Built-in operations the filters call\<close>

text \<open>\<^verbatim>\<open>len(v)\<close>: defined on strings and containers, a \<^verbatim>\<open>TypeError\<close> elsewhere.\<close>

fun py_len :: "pyval \<Rightarrow> error + nat" where
  "py_len (PStr s) = Inr (length s)"
| "py_len (PList xs) = Inr (length xs)"
| "py_len (PTuple xs) = Inr (length xs)"
| "py_len (PSet xs) = Inr (length xs)"
| "py_len (PDict d) = Inr (length d)"
| "py_len v = Inl TypeError"

text \<open>The dict lookup: the value of the entry whose key equals \<open>k\<close>, if there is one.\<close>

fun dict_find :: "(pyval \<times> pyval) list \<Rightarrow> pyval \<Rightarrow> pyval option" where
  "dict_find [] k = None"
| "dict_find ((k', v) # d) k = (if py_eq k' k then Some v else dict_find d k)"

text \<open>
  \<^verbatim>\<open>v[i]\<close> for an integer \<open>i\<close>: a list, a tuple and a string are indexed (a negative
  index counts from the end), a dict is looked up at the key \<open>i\<close>, and a set or a scalar
  cannot be subscripted.
\<close>

fun seq_index :: "'a list \<Rightarrow> int \<Rightarrow> error + 'a" where
  "seq_index xs i =
     (if 0 \<le> i \<and> i < int (length xs) then Inr (xs ! nat i)
      else if i < 0 \<and> - int (length xs) \<le> i then Inr (xs ! nat (int (length xs) + i))
      else Inl IndexError)"

fun py_getitem :: "pyval \<Rightarrow> int \<Rightarrow> error + pyval" where
  "py_getitem (PList xs) i = seq_index xs i"
| "py_getitem (PTuple xs) i = seq_index xs i"
| "py_getitem (PStr s) i = (case seq_index s i of Inl e \<Rightarrow> Inl e | Inr c \<Rightarrow> Inr (PStr [c]))"
| "py_getitem (PDict d) i =
     (case dict_find d (PInt i) of None \<Rightarrow> Inl KeyError | Some v \<Rightarrow> Inr v)"
| "py_getitem v i = Inl TypeError"

subsection \<open>Strings\<close>

text \<open>
  \<^verbatim>\<open>s.split(sep)\<close> for a string \<open>sep\<close>: the pieces of \<open>s\<close> between the occurrences of
  \<open>sep\<close>, scanned from the left; \<^verbatim>\<open>ValueError\<close> on an empty separator. The result is
  never empty: a string without the separator is its own single piece.
\<close>

function split_scan :: "string \<Rightarrow> string \<Rightarrow> string \<Rightarrow> string list" where
  "split_scan sep cur rest =
     (if rest = [] then [cur]
      else if sep \<noteq> [] \<and> take (length sep) rest = sep
        then cur # split_scan sep [] (drop (length sep) rest)
      else split_scan sep (cur @ [hd rest]) (tl rest))"
  by pat_completeness auto
termination
  by (relation "measure (\<lambda>(sep, cur, rest). length rest)") auto

declare split_scan.simps [simp del]

definition py_split :: "string \<Rightarrow> string \<Rightarrow> error + string list" where
  "py_split s sep =
     (if sep = [] then Inl (ValueError ''empty separator'') else Inr (split_scan sep [] s))"

text \<open>\<^verbatim>\<open>sep.join(xs)\<close> for a list of strings.\<close>

fun py_join :: "string \<Rightarrow> string list \<Rightarrow> string" where
  "py_join sep [] = []"
| "py_join sep [x] = x"
| "py_join sep (x # y # ys) = x @ sep @ py_join sep (y # ys)"

text \<open>The decimal numeral of an integer, as \<^verbatim>\<open>str\<close> prints it.\<close>

function str_nat :: "nat \<Rightarrow> string" where
  "str_nat n =
     (if n < 10 then [''0123456789'' ! n]
      else str_nat (n div 10) @ [''0123456789'' ! (n mod 10)])"
  by pat_completeness auto
termination
  by (relation "measure id") auto

declare str_nat.simps [simp del]

definition str_int :: "int \<Rightarrow> string" where
  "str_int i = (if i < 0 then CHR ''-'' # str_nat (nat (- i)) else str_nat (nat i))"

text \<open>\<^verbatim>\<open>t in s\<close> for two strings: \<open>t\<close> occurs in \<open>s\<close>.\<close>

fun is_substring :: "string \<Rightarrow> string \<Rightarrow> bool" where
  "is_substring t [] = (t = [])"
| "is_substring t (c # cs) = (take (length t) (c # cs) = t \<or> is_substring t cs)"

text \<open>The order of byte strings: lexicographic by character code.\<close>

fun str_less :: "string \<Rightarrow> string \<Rightarrow> bool" where
  "str_less [] [] = False"
| "str_less [] (d # ds) = True"
| "str_less (c # cs) [] = False"
| "str_less (c # cs) (d # ds) =
     ((of_char c :: nat) < of_char d \<or> (c = d \<and> str_less cs ds))"

text \<open>
  The integers that are an \<^verbatim>\<open>int\<close> when \<^verbatim>\<open>sys.maxint\<close> is \<open>m\<close>; the others are a
  \<^verbatim>\<open>long\<close>.
\<close>

definition is_machine_int :: "int \<Rightarrow> int \<Rightarrow> bool" where
  "is_machine_int m i = (- m - 1 \<le> i \<and> i \<le> m)"

subsection \<open>The interpreter's part\<close>

text \<open>
  Four built-ins the filters call are not given by the source and are too large to
  spell out here; the model takes them as parameters, so every theorem holds whatever
  they do. With them comes \<open>rt_maxint\<close>, the interpreter's \<^verbatim>\<open>sys.maxint\<close>, the largest
  \<^verbatim>\<open>int\<close> (\<^verbatim>\<open>2**63 - 1\<close> or \<^verbatim>\<open>2**31 - 1\<close>, by the platform).
  \<^item> \<open>rt_str\<close>: \<^verbatim>\<open>str(v)\<close> of a list, tuple, set or dict;
  \<^item> \<open>rt_format\<close>: \<^verbatim>\<open>fmt.format(x)\<close> for a format string \<open>fmt\<close> of the caller;
  \<^item> \<open>rt_loads\<close>: \<^verbatim>\<open>json.loads(v)\<close>;
  \<^item> \<open>rt_compare\<close>: the order comparisons \<^verbatim>\<open><\<close>, \<^verbatim>\<open><=\<close>, \<^verbatim>\<open>>\<close>, \<^verbatim>\<open>>=\<close> of two values
    that are neither both numbers nor both strings (Python 2 leaves most of them to
    the implementation, and some raise).
\<close>

datatype binop = Eq | Le | Ge | Lt | Gt | Ne

record runtime =
  rt_maxint :: int
  rt_str :: "pyval \<Rightarrow> string"
  rt_format :: "string \<Rightarrow> pyval \<Rightarrow> error + string"
  rt_loads :: "pyval \<Rightarrow> error + pyval"
  rt_compare :: "binop \<Rightarrow> pyval \<Rightarrow> pyval \<Rightarrow> error + bool"

text \<open>\<^verbatim>\<open>str(v)\<close>, which is also what an empty format field \<^verbatim>\<open>{0}\<close> prints.\<close>

fun py_str :: "runtime \<Rightarrow> pyval \<Rightarrow> string" where
  "py_str rt PNone = ''None''"
| "py_str rt (PBool b) = (if b then ''True'' else ''False'')"
| "py_str rt (PInt i) = str_int i"
| "py_str rt (PStr s) = s"
| "py_str rt v = rt_str rt v"

subsection \<open>Membership and dict access\<close>

text \<open>
  \<^verbatim>\<open>key in x\<close>. A dict or a set hashes the key first (\<^verbatim>\<open>TypeError\<close> on an unhashable
  one, but a set looked up in a set is only not found); a list or a tuple compares
  its elements with the key; a string takes a string only; other values are not
  containers.
\<close>

fun py_contains :: "pyval \<Rightarrow> pyval \<Rightarrow> error + bool" where
  "py_contains (PDict d) key =
     (if hashable key then Inr (dict_find d key \<noteq> None) else Inl TypeError)"
| "py_contains (PSet xs) key =
     (case key of
        PSet ys \<Rightarrow> Inr False
      | _ \<Rightarrow> if hashable key then Inr (list_ex (\<lambda>y. py_eq y key) xs) else Inl TypeError)"
| "py_contains (PList xs) key = Inr (list_ex (\<lambda>y. py_eq y key) xs)"
| "py_contains (PTuple xs) key = Inr (list_ex (\<lambda>y. py_eq y key) xs)"
| "py_contains (PStr s) key =
     (case key of PStr t \<Rightarrow> Inr (is_substring t s) | _ \<Rightarrow> Inl TypeError)"
| "py_contains v key = Inl TypeError"

text \<open>
  \<^verbatim>\<open>x.get(key)\<close>: only a dict has the method; a missing key gives \<^verbatim>\<open>None\<close>.
\<close>

fun py_get :: "pyval \<Rightarrow> pyval \<Rightarrow> error + pyval" where
  "py_get (PDict d) key =
     (if hashable key
      then Inr (case dict_find d key of None \<Rightarrow> PNone | Some v \<Rightarrow> v)
      else Inl TypeError)"
| "py_get v key = Inl AttributeError"

text \<open>
  \<^verbatim>\<open>res[k] = x\<close> on a dict under construction: an entry with an equal key keeps its
  key and takes the new value, otherwise a new entry is added. (Python 2 does not fix
  where a new entry appears in the iteration order; the model puts it last, and no
  theorem below depends on the position.)
\<close>

fun dict_update :: "(pyval \<times> pyval) list \<Rightarrow> pyval \<Rightarrow> pyval \<Rightarrow> (pyval \<times> pyval) list" where
  "dict_update [] k x = [(k, x)]"
| "dict_update ((k', v) # d) k x =
     (if py_eq k' k then (k', x) # d else (k', v) # dict_update d k x)"

definition dict_setitem ::
  "(pyval \<times> pyval) list \<Rightarrow> pyval \<Rightarrow> pyval \<Rightarrow> error + (pyval \<times> pyval) list" where
  "dict_setitem d k x = (if hashable k then Inr (dict_update d k x) else Inl TypeError)"

section \<open>The filters\<close>

subsection \<open>\<^verbatim>\<open>one\<close>\<close>

definition one :: "pyval \<Rightarrow> error + pyval" where
  "one l =
     (case py_len l of
        Inl e \<Rightarrow> Inl e
      | Inr n \<Rightarrow>
          if n > 1 then Inl (ValueError ''The list contains more than 1 element'')
          else if n = 0 then Inl (ValueError ''The list is empty'')
          else py_getitem l 0)"

text \<open>
  Iterating a value (\<^verbatim>\<open>for x in v\<close>, \<^verbatim>\<open>reduce\<close>, \<^verbatim>\<open>filter\<close>): the elements of a list,
  tuple or set, the keys of a dict, the one-character strings of a string; a
  \<^verbatim>\<open>TypeError\<close> on \<^verbatim>\<open>None\<close> and on numbers.
\<close>

fun py_iter :: "pyval \<Rightarrow> error + pyval list" where
  "py_iter (PList xs) = Inr xs"
| "py_iter (PTuple xs) = Inr xs"
| "py_iter (PSet xs) = Inr xs"
| "py_iter (PDict d) = Inr (map fst d)"
| "py_iter (PStr s) = Inr (map (\<lambda>c. PStr [c]) s)"
| "py_iter v = Inl TypeError"

text \<open>
  \<^verbatim>\<open>reduce(f, xs, z)\<close> folds from the left; the first exception of \<open>f\<close> ends it.
\<close>

fun reduce :: "('a \<Rightarrow> 'b \<Rightarrow> error + 'a) \<Rightarrow> 'b list \<Rightarrow> 'a \<Rightarrow> error + 'a" where
  "reduce f [] z = Inr z"
| "reduce f (x # xs) z = (case f z x of Inl e \<Rightarrow> Inl e | Inr z' \<Rightarrow> reduce f xs z')"

subsection \<open>\<^verbatim>\<open>flatten_list\<close>\<close>

text \<open>\<^verbatim>\<open>isinstance(y, list_types)\<close> with \<^verbatim>\<open>list_types = (list, set, tuple)\<close>.\<close>

fun is_list_type :: "pyval \<Rightarrow> bool" where
  "is_list_type (PList xs) = True"
| "is_list_type (PSet xs) = True"
| "is_list_type (PTuple xs) = True"
| "is_list_type v = False"

text \<open>
  The module-level helper \<^verbatim>\<open>_flatten_list(pres, y)\<close>: a value that is no list, set or
  tuple is appended to \<open>pres\<close>; otherwise the loop threads \<open>pres\<close> through the
  elements. The helper raises nothing, so the loop is a plain left fold.
\<close>

fun flatten_list_acc :: "pyval list \<Rightarrow> pyval \<Rightarrow> pyval list" where
  "flatten_list_acc pres (PList ys) = foldl flatten_list_acc pres ys"
| "flatten_list_acc pres (PSet ys) = foldl flatten_list_acc pres ys"
| "flatten_list_acc pres (PTuple ys) = foldl flatten_list_acc pres ys"
| "flatten_list_acc pres PNone = pres @ [PNone]"
| "flatten_list_acc pres (PBool b) = pres @ [PBool b]"
| "flatten_list_acc pres (PInt i) = pres @ [PInt i]"
| "flatten_list_acc pres (PStr s) = pres @ [PStr s]"
| "flatten_list_acc pres (PDict d) = pres @ [PDict d]"

text \<open>\<^verbatim>\<open>flatten_list(l) = reduce(_flatten_list, l, [])\<close>.\<close>

definition flatten_list :: "pyval \<Rightarrow> error + pyval" where
  "flatten_list l =
     (case py_iter l of
        Inl e \<Rightarrow> Inl e
      | Inr ys \<Rightarrow>
          (case reduce (\<lambda>pres y. Inr (flatten_list_acc pres y)) ys [] of
             Inl e \<Rightarrow> Inl e
           | Inr res \<Rightarrow> Inr (PList res)))"

text \<open>
  The specification's reading of flattening, to compare with: the non-sequence leaves
  of a value, depth first and left to right. A list, set or tuple is expanded, any
  other value is a leaf, and an empty sequence has no leaves.
\<close>

fun leaves :: "pyval \<Rightarrow> pyval list" where
  "leaves (PList ys) = concat (map leaves ys)"
| "leaves (PSet ys) = concat (map leaves ys)"
| "leaves (PTuple ys) = concat (map leaves ys)"
| "leaves v = [v]"

subsection \<open>Key paths\<close>

text \<open>
  The lambda \<^verbatim>\<open>f = lambda z,k: z.get(k) if z else None\<close> of \<^verbatim>\<open>to_map\<close> and
  \<^verbatim>\<open>map_keys\<close>, and the resolution \<^verbatim>\<open>reduce(f, p, x)\<close> of a key path \<open>p\<close> from \<open>x\<close>.
\<close>

definition key_step :: "pyval \<Rightarrow> string \<Rightarrow> error + pyval" where
  "key_step z k = (if truthy z then py_get z (PStr k) else Inr PNone)"

definition resolve :: "string list \<Rightarrow> pyval \<Rightarrow> error + pyval" where
  "resolve p x = reduce key_step p x"

subsection \<open>\<^verbatim>\<open>to_map\<close>\<close>

text \<open>The loop \<^verbatim>\<open>for x in l: k = reduce(f, p, x); if k: res[k] = x\<close>.\<close>

fun to_map_loop ::
  "string list \<Rightarrow> pyval list \<Rightarrow> (pyval \<times> pyval) list \<Rightarrow> error + (pyval \<times> pyval) list" where
  "to_map_loop p [] res = Inr res"
| "to_map_loop p (x # xs) res =
     (case resolve p x of
        Inl e \<Rightarrow> Inl e
      | Inr k \<Rightarrow>
          if truthy k
          then (case dict_setitem res k x of
                  Inl e \<Rightarrow> Inl e
                | Inr res' \<Rightarrow> to_map_loop p xs res')
          else to_map_loop p xs res)"

definition to_map :: "pyval \<Rightarrow> string \<Rightarrow> string \<Rightarrow> error + pyval" where
  "to_map l item_key path_delimiter =
     (case py_split item_key path_delimiter of
        Inl e \<Rightarrow> Inl e
      | Inr p \<Rightarrow>
          (case py_iter l of
             Inl e \<Rightarrow> Inl e
           | Inr xs \<Rightarrow>
               (case to_map_loop p xs [] of
                  Inl e \<Rightarrow> Inl e
                | Inr res \<Rightarrow> Inr (PDict res))))"

subsection \<open>\<^verbatim>\<open>format_items\<close>\<close>

text \<open>\<^verbatim>\<open>[fmt.format(x) for x in it]\<close>: the first element that fails to format ends it.\<close>

fun format_each :: "runtime \<Rightarrow> string \<Rightarrow> pyval list \<Rightarrow> error + pyval list" where
  "format_each rt fmt [] = Inr []"
| "format_each rt fmt (x # xs) =
     (case rt_format rt fmt x of
        Inl e \<Rightarrow> Inl e
      | Inr s \<Rightarrow>
          (case format_each rt fmt xs of Inl e \<Rightarrow> Inl e | Inr ss \<Rightarrow> Inr (PStr s # ss)))"

definition format_items :: "runtime \<Rightarrow> pyval \<Rightarrow> string \<Rightarrow> error + pyval" where
  "format_items rt it fmt =
     (case py_iter it of
        Inl e \<Rightarrow> Inl e
      | Inr xs \<Rightarrow> (case format_each rt fmt xs of Inl e \<Rightarrow> Inl e | Inr ss \<Rightarrow> Inr (PList ss)))"

subsection \<open>\<^verbatim>\<open>list_values\<close> and \<^verbatim>\<open>list_keys\<close>\<close>

text \<open>\<^verbatim>\<open>d.values()\<close> and \<^verbatim>\<open>d.keys()\<close>: new lists in Python 2, and methods of a dict only.\<close>

fun list_values :: "pyval \<Rightarrow> error + pyval" where
  "list_values (PDict d) = Inr (PList (map snd d))"
| "list_values v = Inl AttributeError"

fun list_keys :: "pyval \<Rightarrow> error + pyval" where
  "list_keys (PDict d) = Inr (PList (map fst d))"
| "list_keys v = Inl AttributeError"

subsection \<open>\<^verbatim>\<open>to_kv_pairs\<close>\<close>

text \<open>
  \<^verbatim>\<open>isinstance(v, scalar_types)\<close> with
  \<^verbatim>\<open>scalar_types = (basestring, int, float, complex, bool)\<close>. The tuple names \<^verbatim>\<open>int\<close>
  and not \<^verbatim>\<open>long\<close>, so an integer is an instance only when it is an \<^verbatim>\<open>int\<close>.
\<close>

fun is_scalar :: "runtime \<Rightarrow> pyval \<Rightarrow> bool" where
  "is_scalar rt (PStr s) = True"
| "is_scalar rt (PInt i) = is_machine_int (rt_maxint rt) i"
| "is_scalar rt (PBool b) = True"
| "is_scalar rt v = False"

text \<open>The lambda \<^verbatim>\<open>f = lambda k, v: '{0}={1}'.format(k, v) if v else str(k)\<close>.\<close>

definition kv_render :: "runtime \<Rightarrow> pyval \<Rightarrow> pyval \<Rightarrow> string" where
  "kv_render rt k v = (if truthy v then py_str rt k @ ''='' @ py_str rt v else py_str rt k)"

text \<open>The condition \<^verbatim>\<open>not v or isinstance(v, scalar_types)\<close> of the comprehension.\<close>

definition kv_kept :: "runtime \<Rightarrow> pyval \<times> pyval \<Rightarrow> bool" where
  "kv_kept rt kv = (\<not> truthy (snd kv) \<or> is_scalar rt (snd kv))"

fun to_kv_pairs :: "runtime \<Rightarrow> pyval \<Rightarrow> string \<Rightarrow> error + pyval" where
  "to_kv_pairs rt (PDict d) sep =
     Inr (PStr (py_join sep (map (\<lambda>(k, v). kv_render rt k v) (filter (kv_kept rt) d))))"
| "to_kv_pairs rt v sep = Inl AttributeError"

text \<open>
  The specification's reading of \<^verbatim>\<open>to_map\<close>, to compare with: the item bound to a
  key \<open>k\<close> is the last item of the sequence whose key path resolves to a truthy value
  equal to \<open>k\<close>, and a key no such item resolves to is unbound.
\<close>

definition resolves_to :: "string list \<Rightarrow> pyval \<Rightarrow> pyval \<Rightarrow> bool" where
  "resolves_to p k x =
     (case resolve p x of Inl e \<Rightarrow> False | Inr k' \<Rightarrow> truthy k' \<and> py_eq k' k)"

definition last_item_with_key :: "string list \<Rightarrow> pyval list \<Rightarrow> pyval \<Rightarrow> pyval option" where
  "last_item_with_key p xs k = find (resolves_to p k) (rev xs)"

text \<open>
  A normal form of hashable values under \<^verbatim>\<open>==\<close>: a \<^verbatim>\<open>bool\<close> is the number it
  equals, a tuple is normalised elementwise.
\<close>

fun key_norm :: "pyval \<Rightarrow> pyval" where
  "key_norm (PBool b) = PInt (if b then 1 else 0)"
| "key_norm (PTuple xs) = PTuple (map key_norm xs)"
| "key_norm v = v"

text \<open>Every key of a dict under construction is hashable.\<close>

definition keys_hashable :: "(pyval \<times> pyval) list \<Rightarrow> bool" where
  "keys_hashable d = list_all (\<lambda>kv. hashable (fst kv)) d"

subsection \<open>\<^verbatim>\<open>map_keys\<close>\<close>

text \<open>
  The first step, \<^verbatim>\<open>if keys == '*': keys = d.keys()\<close> and otherwise
  \<^verbatim>\<open>assert isinstance(keys, (list, set)), 'Expected an iterable of keys'\<close>.
\<close>

definition find_keys :: "pyval \<Rightarrow> pyval \<Rightarrow> error + pyval list" where
  "find_keys d keys =
     (if py_eq keys (PStr ''*'')
      then (case d of PDict e \<Rightarrow> Inr (map fst e) | _ \<Rightarrow> Inl AttributeError)
      else (case keys of
              PList ks \<Rightarrow> Inr ks
            | PSet ks \<Rightarrow> Inr ks
            | _ \<Rightarrow> Inl (AssertionError ''Expected an iterable of keys'')))"

text \<open>
  A dict comprehension \<^verbatim>\<open>{k: g(k) for k in keys}\<close>: the value is computed, then stored
  under \<open>k\<close>.
\<close>

fun dict_comprehension ::
  "(pyval \<Rightarrow> error + pyval) \<Rightarrow> pyval list \<Rightarrow> (pyval \<times> pyval) list
     \<Rightarrow> error + (pyval \<times> pyval) list" where
  "dict_comprehension g [] res = Inr res"
| "dict_comprehension g (k # ks) res =
     (case g k of
        Inl e \<Rightarrow> Inl e
      | Inr v \<Rightarrow>
          (case dict_setitem res k v of
             Inl e \<Rightarrow> Inl e
           | Inr res' \<Rightarrow> dict_comprehension g ks res'))"

text \<open>
  The value for a key \<open>k\<close> when \<^verbatim>\<open>source_path\<close> is a \<^verbatim>\<open>str\<close>:
  \<^verbatim>\<open>reduce(f, source_path.format(k).split(path_delimiter), d)\<close>.
\<close>

definition source_value :: "runtime \<Rightarrow> pyval \<Rightarrow> string \<Rightarrow> string \<Rightarrow> pyval \<Rightarrow> error + pyval" where
  "source_value rt d source_path path_delimiter k =
     (case rt_format rt source_path k of
        Inl e \<Rightarrow> Inl e
      | Inr s \<Rightarrow>
          (case py_split s path_delimiter of
             Inl e \<Rightarrow> Inl e
           | Inr p \<Rightarrow> resolve p d))"

text \<open>The last step, \<^verbatim>\<open>{k: json.loads(v) for k, v in res.iteritems()}\<close>.\<close>

fun decode_values :: "runtime \<Rightarrow> (pyval \<times> pyval) list \<Rightarrow> error + (pyval \<times> pyval) list" where
  "decode_values rt [] = Inr []"
| "decode_values rt ((k, v) # res) =
     (case rt_loads rt v of
        Inl e \<Rightarrow> Inl e
      | Inr v' \<Rightarrow>
          (case decode_values rt res of
             Inl e \<Rightarrow> Inl e
           | Inr res' \<Rightarrow> Inr ((k, v') # res')))"

definition map_keys ::
  "runtime \<Rightarrow> pyval \<Rightarrow> pyval \<Rightarrow> pyval \<Rightarrow> string \<Rightarrow> bool \<Rightarrow> error + pyval" where
  "map_keys rt d keys source_path path_delimiter decode_json =
     (case find_keys d keys of
        Inl e \<Rightarrow> Inl e
      | Inr ks \<Rightarrow>
          (case (case source_path of
                   PStr sp \<Rightarrow> dict_comprehension (source_value rt d sp path_delimiter) ks []
                 | _ \<Rightarrow> dict_comprehension (py_get d) ks []) of
             Inl e \<Rightarrow> Inl e
           | Inr res \<Rightarrow>
               if decode_json
               then (case decode_values rt res of
                       Inl e \<Rightarrow> Inl e
                     | Inr res' \<Rightarrow> Inr (PDict res'))
               else Inr (PDict res)))"

subsection \<open>\<^verbatim>\<open>filter_by_key\<close>\<close>

text \<open>
  The tables \<^verbatim>\<open>unary_ops\<close> and \<^verbatim>\<open>binary_ops\<close> bind operator names to functions of
  the \<^verbatim>\<open>operator\<close> module.
\<close>

datatype unop = Op_not | Op_truth | Op_is | Op_is_not

definition unary_ops :: "string \<Rightarrow> unop option" where
  "unary_ops =
     map_of [(''not'', Op_not), (''truth'', Op_truth), (''is'', Op_is), (''is_not'', Op_is_not)]"

definition binary_ops :: "string \<Rightarrow> binop option" where
  "binary_ops =
     map_of [(''eq'', Eq), (''le'', Le), (''ge'', Ge), (''lt'', Lt), (''gt'', Gt), (''ne'', Ne)]"

text \<open>
  A function of \<^verbatim>\<open>unary_ops\<close> called with one argument, as \<^verbatim>\<open>t(x.get(key))\<close> does.
  \<^verbatim>\<open>operator.not_\<close> and \<^verbatim>\<open>operator.truth\<close> take one argument; \<^verbatim>\<open>operator.is_\<close> and
  \<^verbatim>\<open>operator.is_not\<close> take two, and the call with one raises \<^verbatim>\<open>TypeError\<close>.
\<close>

fun call_unary :: "unop \<Rightarrow> pyval \<Rightarrow> error + bool" where
  "call_unary Op_not v = Inr (\<not> truthy v)"
| "call_unary Op_truth v = Inr (truthy v)"
| "call_unary Op_is v = Inl TypeError"
| "call_unary Op_is_not v = Inl TypeError"

text \<open>
  A function of \<^verbatim>\<open>binary_ops\<close> called with two arguments. Equality is \<open>py_eq\<close>;
  numbers are ordered as integers and strings lexicographically; the order of other
  pairs is the interpreter's.
\<close>

fun int_order :: "binop \<Rightarrow> int \<Rightarrow> int \<Rightarrow> bool" where
  "int_order Lt i j = (i < j)"
| "int_order Le i j = (i \<le> j)"
| "int_order Gt i j = (i > j)"
| "int_order Ge i j = (i \<ge> j)"
| "int_order Eq i j = (i = j)"
| "int_order Ne i j = (i \<noteq> j)"

fun str_order :: "binop \<Rightarrow> string \<Rightarrow> string \<Rightarrow> bool" where
  "str_order Lt s u = str_less s u"
| "str_order Le s u = (str_less s u \<or> s = u)"
| "str_order Gt s u = str_less u s"
| "str_order Ge s u = (str_less u s \<or> s = u)"
| "str_order Eq s u = (s = u)"
| "str_order Ne s u = (s \<noteq> u)"

definition call_binary :: "runtime \<Rightarrow> binop \<Rightarrow> pyval \<Rightarrow> pyval \<Rightarrow> error + bool" where
  "call_binary rt t a b =
     (if t = Eq then Inr (py_eq a b)
      else if t = Ne then Inr (\<not> py_eq a b)
      else (case (num_of a, num_of b) of
              (Some i, Some j) \<Rightarrow> Inr (int_order t i j)
            | _ \<Rightarrow>
                (case (a, b) of
                   (PStr s, PStr u) \<Rightarrow> Inr (str_order t s u)
                 | _ \<Rightarrow> rt_compare rt t a b)))"

text \<open>
  The predicates \<^verbatim>\<open>lambda x: (key in x) and t(x.get(key))\<close> and
  \<^verbatim>\<open>lambda x: (key in x) and t(x.get(key), value)\<close>: \<^verbatim>\<open>and\<close> does not evaluate its
  right operand when the left one is false.
\<close>

definition key_and :: "pyval \<Rightarrow> (pyval \<Rightarrow> error + bool) \<Rightarrow> pyval \<Rightarrow> error + bool" where
  "key_and key test x =
     (case py_contains x key of
        Inl e \<Rightarrow> Inl e
      | Inr c \<Rightarrow>
          if c then (case py_get x key of Inl e \<Rightarrow> Inl e | Inr v \<Rightarrow> test v)
          else Inr False)"

text \<open>The choice of \<^verbatim>\<open>pred\<close>; \<open>None\<close> is the \<^verbatim>\<open>pred = None\<close> the source starts with.\<close>

definition choose_pred ::
  "runtime \<Rightarrow> pyval \<Rightarrow> string \<Rightarrow> pyval \<Rightarrow> (pyval \<Rightarrow> error + bool) option" where
  "choose_pred rt key op val =
     (if op = ''exists'' then Some (\<lambda>x. py_contains x key)
      else (case unary_ops op of
              Some t \<Rightarrow> Some (key_and key (call_unary t))
            | None \<Rightarrow>
                (case binary_ops op of
                   Some t \<Rightarrow> Some (key_and key (\<lambda>v. call_binary rt t v val))
                 | None \<Rightarrow> None)))"

text \<open>
  Python 2's \<^verbatim>\<open>filter(pred, l)\<close>: the items \<open>pred\<close> holds of, in order; a tuple gives
  a tuple, a string a string, anything else iterable a list.
\<close>

fun filter_items :: "('a \<Rightarrow> error + bool) \<Rightarrow> 'a list \<Rightarrow> error + 'a list" where
  "filter_items pred [] = Inr []"
| "filter_items pred (x # xs) =
     (case pred x of
        Inl e \<Rightarrow> Inl e
      | Inr b \<Rightarrow>
          (case filter_items pred xs of
             Inl e \<Rightarrow> Inl e
           | Inr ys \<Rightarrow> Inr (if b then x # ys else ys)))"

fun chars_of :: "pyval list \<Rightarrow> string" where
  "chars_of [] = []"
| "chars_of (PStr s # xs) = s @ chars_of xs"
| "chars_of (v # xs) = chars_of xs"

definition py_filter :: "(pyval \<Rightarrow> error + bool) \<Rightarrow> pyval \<Rightarrow> error + pyval" where
  "py_filter pred l =
     (case py_iter l of
        Inl e \<Rightarrow> Inl e
      | Inr xs \<Rightarrow>
          (case filter_items pred xs of
             Inl e \<Rightarrow> Inl e
           | Inr ys \<Rightarrow>
               Inr (case l of
                      PTuple zs \<Rightarrow> PTuple ys
                    | PStr s \<Rightarrow> PStr (chars_of ys)
                    | _ \<Rightarrow> PList ys)))"

definition filter_by_key :: "runtime \<Rightarrow> pyval \<Rightarrow> pyval \<Rightarrow> string \<Rightarrow> pyval \<Rightarrow> error + pyval" where
  "filter_by_key rt l key op val =
     (case choose_pred rt key op val of
        None \<Rightarrow> Inl (ValueError (''Unknown operator: '' @ op))
      | Some pred \<Rightarrow> py_filter pred l)"

text \<open>
  An interpreter to run examples with: \<^verbatim>\<open>sys.maxint\<close> is that of a 64-bit
  platform, and the built-ins the examples never reach raise \<^verbatim>\<open>TypeError\<close> and
  print nothing.
\<close>

definition bare_runtime :: runtime where
  "bare_runtime =
     \<lparr> rt_maxint = 9223372036854775807,
       rt_str = (\<lambda>v. []),
       rt_format = (\<lambda>fmt x. Inl TypeError),
       rt_loads = (\<lambda>v. Inl TypeError),
       rt_compare = (\<lambda>t a b. Inl TypeError) \<rparr>"

text \<open>
  The specification's reading of the items \<^verbatim>\<open>filter_by_key\<close> works on, to compare
  with: a mapping contains a key when it binds it, and \<open>item_at x key\<close> is the value
  bound.
\<close>

fun is_dict :: "pyval \<Rightarrow> bool" where
  "is_dict (PDict d) = True"
| "is_dict v = False"

fun has_key :: "pyval \<Rightarrow> pyval \<Rightarrow> bool" where
  "has_key (PDict d) key = (dict_find d key \<noteq> None)"
| "has_key v key = False"

fun item_at :: "pyval \<Rightarrow> pyval \<Rightarrow> pyval" where
  "item_at (PDict d) key = (case dict_find d key of None \<Rightarrow> PNone | Some v \<Rightarrow> v)"
| "item_at v key = PNone"

text \<open>
  The specification's reading of \<^verbatim>\<open>to_kv_pairs\<close>, to compare with. A scalar is a
  boolean, an integer (of any size), a floating-point or complex number or a text
  string. An entry is included when its value is a scalar or falsy; an entry with a
  falsy value is rendered as the bare key, any other as \<^verbatim>\<open>key=value\<close>.
\<close>

fun spec_scalar :: "pyval \<Rightarrow> bool" where
  "spec_scalar (PBool b) = True"
| "spec_scalar (PInt i) = True"
| "spec_scalar (PStr s) = True"
| "spec_scalar v = False"

definition kv_included :: "pyval \<times> pyval \<Rightarrow> bool" where
  "kv_included kv = (spec_scalar (snd kv) \<or> \<not> truthy (snd kv))"

definition kv_token :: "runtime \<Rightarrow> pyval \<times> pyval \<Rightarrow> string" where
  "kv_token rt kv =
     (if \<not> truthy (snd kv) then py_str rt (fst kv)
      else py_str rt (fst kv) @ ''='' @ py_str rt (snd kv))"

section \<open>The filters on a store\<close>

text \<open>
  Whether a filter changes its arguments cannot be read off functions on values, so
  the filters are modelled a second time, on a store of objects. A list, a set and a
  dict are objects of the store, named by their address, and \<^verbatim>\<open>append\<close> and item
  assignment overwrite the object at an address; \<^verbatim>\<open>None\<close>, numbers, strings and tuples
  are immutable and stand for themselves. A new object takes the next free address. A
  filter takes the store and returns the store it leaves behind, together with its
  result or its exception.
\<close>

datatype hval =
    HNone
  | HBool bool
  | HInt int
  | HStr string
  | HTuple "hval list"
  | HRef nat

datatype hobj =
    OList "hval list"
  | OSet "hval list"
  | ODict "(hval \<times> hval) list"

type_synonym store = "hobj list"

text \<open>
  The object at an address. An address beyond the store names an object of a type
  the model does not follow: it is truthy, cannot be iterated and has no \<^verbatim>\<open>get\<close>.
\<close>

definition deref :: "store \<Rightarrow> nat \<Rightarrow> hobj option" where
  "deref s a = (if a < length s then Some (s ! a) else None)"

definition alloc :: "store \<Rightarrow> hobj \<Rightarrow> store \<times> nat" where
  "alloc s ob = (s @ [ob], length s)"

text \<open>
  \<open>extends s s'\<close>: every object of \<open>s\<close> is in \<open>s'\<close> at its address, unchanged; \<open>s'\<close> may
  hold new objects after them.
\<close>

definition extends :: "store \<Rightarrow> store \<Rightarrow> bool" where
  "extends s s' = (take (length s) s' = s)"

subsection \<open>Built-ins on the store\<close>

fun h_hashable :: "hval \<Rightarrow> bool" where
  "h_hashable (HTuple xs) = list_all h_hashable xs"
| "h_hashable (HRef a) = False"
| "h_hashable v = True"

fun h_num_of :: "hval \<Rightarrow> int option" where
  "h_num_of (HBool b) = Some (if b then 1 else 0)"
| "h_num_of (HInt i) = Some i"
| "h_num_of v = None"

text \<open>\<^verbatim>\<open>==\<close> on immutable values, which is how a dict compares keys.\<close>

fun h_key_eq :: "hval \<Rightarrow> hval \<Rightarrow> bool" where
  "h_key_eq HNone w = (w = HNone)"
| "h_key_eq (HBool a) w = (h_num_of w = Some (if a then 1 else 0))"
| "h_key_eq (HInt a) w = (h_num_of w = Some a)"
| "h_key_eq (HStr a) w = (w = HStr a)"
| "h_key_eq (HTuple xs) w = (case w of HTuple ys \<Rightarrow> list_all2 h_key_eq xs ys | _ \<Rightarrow> False)"
| "h_key_eq (HRef a) w = False"

fun s_truthy :: "store \<Rightarrow> hval \<Rightarrow> bool" where
  "s_truthy s HNone = False"
| "s_truthy s (HBool b) = b"
| "s_truthy s (HInt i) = (i \<noteq> 0)"
| "s_truthy s (HStr t) = (t \<noteq> [])"
| "s_truthy s (HTuple xs) = (xs \<noteq> [])"
| "s_truthy s (HRef a) =
     (case deref s a of
        Some (OList xs) \<Rightarrow> xs \<noteq> []
      | Some (OSet xs) \<Rightarrow> xs \<noteq> []
      | Some (ODict d) \<Rightarrow> d \<noteq> []
      | None \<Rightarrow> True)"

fun s_len :: "store \<Rightarrow> hval \<Rightarrow> error + nat" where
  "s_len s (HStr t) = Inr (length t)"
| "s_len s (HTuple xs) = Inr (length xs)"
| "s_len s (HRef a) =
     (case deref s a of
        Some (OList xs) \<Rightarrow> Inr (length xs)
      | Some (OSet xs) \<Rightarrow> Inr (length xs)
      | Some (ODict d) \<Rightarrow> Inr (length d)
      | None \<Rightarrow> Inl TypeError)"
| "s_len s v = Inl TypeError"

fun s_iter :: "store \<Rightarrow> hval \<Rightarrow> error + hval list" where
  "s_iter s (HStr t) = Inr (map (\<lambda>c. HStr [c]) t)"
| "s_iter s (HTuple xs) = Inr xs"
| "s_iter s (HRef a) =
     (case deref s a of
        Some (OList xs) \<Rightarrow> Inr xs
      | Some (OSet xs) \<Rightarrow> Inr xs
      | Some (ODict d) \<Rightarrow> Inr (map fst d)
      | None \<Rightarrow> Inl TypeError)"
| "s_iter s v = Inl TypeError"

fun h_dict_find :: "(hval \<times> hval) list \<Rightarrow> hval \<Rightarrow> hval option" where
  "h_dict_find [] k = None"
| "h_dict_find ((k', v) # d) k = (if h_key_eq k' k then Some v else h_dict_find d k)"

fun h_dict_update :: "(hval \<times> hval) list \<Rightarrow> hval \<Rightarrow> hval \<Rightarrow> (hval \<times> hval) list" where
  "h_dict_update [] k x = [(k, x)]"
| "h_dict_update ((k', v) # d) k x =
     (if h_key_eq k' k then (k', x) # d else (k', v) # h_dict_update d k x)"

fun s_getitem :: "store \<Rightarrow> hval \<Rightarrow> int \<Rightarrow> error + hval" where
  "s_getitem s (HTuple xs) i = seq_index xs i"
| "s_getitem s (HStr t) i = (case seq_index t i of Inl e \<Rightarrow> Inl e | Inr c \<Rightarrow> Inr (HStr [c]))"
| "s_getitem s (HRef a) i =
     (case deref s a of
        Some (OList xs) \<Rightarrow> seq_index xs i
      | Some (ODict d) \<Rightarrow>
          (case h_dict_find d (HInt i) of None \<Rightarrow> Inl KeyError | Some v \<Rightarrow> Inr v)
      | _ \<Rightarrow> Inl TypeError)"
| "s_getitem s v i = Inl TypeError"

text \<open>\<^verbatim>\<open>x.get(key)\<close> reads the dict at the address of \<open>x\<close>.\<close>

fun s_get :: "store \<Rightarrow> hval \<Rightarrow> hval \<Rightarrow> error + hval" where
  "s_get s (HRef a) key =
     (case deref s a of
        Some (ODict d) \<Rightarrow>
          if h_hashable key
          then Inr (case h_dict_find d key of None \<Rightarrow> HNone | Some v \<Rightarrow> v)
          else Inl TypeError
      | _ \<Rightarrow> Inl AttributeError)"
| "s_get s v key = Inl AttributeError"

text \<open>
  The two writes of the source. \<^verbatim>\<open>pres.append(y)\<close> overwrites the list at the address
  of \<open>pres\<close>, and \<^verbatim>\<open>res[k] = x\<close> overwrites the dict at the address of \<open>res\<close>.
\<close>

definition s_append :: "store \<Rightarrow> nat \<Rightarrow> hval \<Rightarrow> store \<times> (error + unit)" where
  "s_append s a y =
     (case deref s a of
        Some (OList xs) \<Rightarrow> (s[a := OList (xs @ [y])], Inr ())
      | _ \<Rightarrow> (s, Inl AttributeError))"

definition s_setitem :: "store \<Rightarrow> nat \<Rightarrow> hval \<Rightarrow> hval \<Rightarrow> store \<times> (error + unit)" where
  "s_setitem s a k x =
     (case deref s a of
        Some (ODict d) \<Rightarrow>
          if h_hashable k then (s[a := ODict (h_dict_update d k x)], Inr ())
          else (s, Inl TypeError)
      | _ \<Rightarrow> (s, Inl TypeError))"

text \<open>
  The interpreter's part on the store. Printing, formatting and comparing read the
  store; \<^verbatim>\<open>json.loads\<close> builds new objects, so it returns a store; \<open>srt_maxint\<close> is
  \<^verbatim>\<open>sys.maxint\<close>.
\<close>

record sruntime =
  srt_maxint :: int
  srt_str :: "store \<Rightarrow> hval \<Rightarrow> string"
  srt_format :: "store \<Rightarrow> string \<Rightarrow> hval \<Rightarrow> error + string"
  srt_loads :: "store \<Rightarrow> hval \<Rightarrow> store \<times> (error + hval)"
  srt_equal :: "store \<Rightarrow> hval \<Rightarrow> hval \<Rightarrow> bool"
  srt_compare :: "store \<Rightarrow> binop \<Rightarrow> hval \<Rightarrow> hval \<Rightarrow> error + bool"

subsection \<open>\<^verbatim>\<open>one\<close>, \<^verbatim>\<open>list_values\<close>, \<^verbatim>\<open>list_keys\<close> on the store\<close>

definition s_one :: "store \<Rightarrow> hval \<Rightarrow> store \<times> (error + hval)" where
  "s_one s l =
     (s, case s_len s l of
           Inl e \<Rightarrow> Inl e
         | Inr n \<Rightarrow>
             if n > 1 then Inl (ValueError ''The list contains more than 1 element'')
             else if n = 0 then Inl (ValueError ''The list is empty'')
             else s_getitem s l 0)"

text \<open>\<^verbatim>\<open>d.values()\<close> and \<^verbatim>\<open>d.keys()\<close> build a new list.\<close>

definition s_dict_list ::
  "(hval \<times> hval \<Rightarrow> hval) \<Rightarrow> store \<Rightarrow> hval \<Rightarrow> store \<times> (error + hval)" where
  "s_dict_list part s d =
     (case d of
        HRef a \<Rightarrow>
          (case deref s a of
             Some (ODict e) \<Rightarrow> (let (s', r) = alloc s (OList (map part e)) in (s', Inr (HRef r)))
           | _ \<Rightarrow> (s, Inl AttributeError))
      | _ \<Rightarrow> (s, Inl AttributeError))"

definition s_list_values :: "store \<Rightarrow> hval \<Rightarrow> store \<times> (error + hval)" where
  "s_list_values s d = s_dict_list snd s d"

definition s_list_keys :: "store \<Rightarrow> hval \<Rightarrow> store \<times> (error + hval)" where
  "s_list_keys s d = s_dict_list fst s d"

subsection \<open>\<^verbatim>\<open>flatten_list\<close> on the store\<close>

text \<open>
  \<^verbatim>\<open>_flatten_list(pres, y)\<close> with \<open>pres\<close> the address of the result list. The loop
  over a list reads the list at each step, as Python's list iterator does; a tuple and
  a set are not written to, so their elements are read once. The first argument bounds
  the number of calls: a store may be cyclic, and then Python stops with a
  \<^verbatim>\<open>RuntimeError\<close> as well.
\<close>

fun s_flatten :: "nat \<Rightarrow> store \<Rightarrow> nat \<Rightarrow> hval \<Rightarrow> store \<times> (error + unit)"
  and s_flatten_each :: "nat \<Rightarrow> store \<Rightarrow> nat \<Rightarrow> hval list \<Rightarrow> store \<times> (error + unit)"
  and s_flatten_from :: "nat \<Rightarrow> store \<Rightarrow> nat \<Rightarrow> nat \<Rightarrow> nat \<Rightarrow> store \<times> (error + unit)"
where
  "s_flatten 0 s pres y = (s, Inl RuntimeError)"
| "s_flatten (Suc n) s pres y =
     (case y of
        HTuple ys \<Rightarrow> s_flatten_each n s pres ys
      | HRef b \<Rightarrow>
          (case deref s b of
             Some (OList ys) \<Rightarrow> s_flatten_from n s pres b 0
           | Some (OSet ys) \<Rightarrow> s_flatten_each n s pres ys
           | _ \<Rightarrow> s_append s pres y)
      | _ \<Rightarrow> s_append s pres y)"
| "s_flatten_each 0 s pres ys = (s, Inl RuntimeError)"
| "s_flatten_each (Suc n) s pres [] = (s, Inr ())"
| "s_flatten_each (Suc n) s pres (yy # ys) =
     (case s_flatten n s pres yy of
        (s', Inl e) \<Rightarrow> (s', Inl e)
      | (s', Inr u) \<Rightarrow> s_flatten_each n s' pres ys)"
| "s_flatten_from 0 s pres b i = (s, Inl RuntimeError)"
| "s_flatten_from (Suc n) s pres b i =
     (case deref s b of
        Some (OList ys) \<Rightarrow>
          if i < length ys
          then (case s_flatten n s pres (ys ! i) of
                  (s', Inl e) \<Rightarrow> (s', Inl e)
                | (s', Inr u) \<Rightarrow> s_flatten_from n s' pres b (Suc i))
          else (s, Inr ())
      | _ \<Rightarrow> (s, Inr ()))"

text \<open>
  \<^verbatim>\<open>flatten_list(l) = reduce(_flatten_list, l, [])\<close>: the accumulator is a new list.
  The elements of \<open>l\<close> are read before the fold, which writes to the new list only.
\<close>

definition s_flatten_list :: "nat \<Rightarrow> store \<Rightarrow> hval \<Rightarrow> store \<times> (error + hval)" where
  "s_flatten_list n s l =
     (let (s1, pres) = alloc s (OList []) in
      case s_iter s1 l of
        Inl e \<Rightarrow> (s1, Inl e)
      | Inr ys \<Rightarrow>
          (case s_flatten_each n s1 pres ys of
             (s2, Inl e) \<Rightarrow> (s2, Inl e)
           | (s2, Inr u) \<Rightarrow> (s2, Inr (HRef pres))))"

subsection \<open>\<^verbatim>\<open>to_map\<close> on the store\<close>

definition s_key_step :: "store \<Rightarrow> hval \<Rightarrow> string \<Rightarrow> error + hval" where
  "s_key_step s z k = (if s_truthy s z then s_get s z (HStr k) else Inr HNone)"

definition s_resolve :: "store \<Rightarrow> string list \<Rightarrow> hval \<Rightarrow> error + hval" where
  "s_resolve s p x = reduce (s_key_step s) p x"

text \<open>
  The loop of \<^verbatim>\<open>to_map\<close> with \<open>res\<close> the address of the dict being built. The items
  of \<open>l\<close> are read before the loop; the loop writes to \<open>res\<close> only.
\<close>

fun s_to_map_loop ::
  "string list \<Rightarrow> nat \<Rightarrow> hval list \<Rightarrow> store \<Rightarrow> store \<times> (error + unit)" where
  "s_to_map_loop p res [] s = (s, Inr ())"
| "s_to_map_loop p res (x # xs) s =
     (case s_resolve s p x of
        Inl e \<Rightarrow> (s, Inl e)
      | Inr k \<Rightarrow>
          if s_truthy s k
          then (case s_setitem s res k x of
                  (s', Inl e) \<Rightarrow> (s', Inl e)
                | (s', Inr u) \<Rightarrow> s_to_map_loop p res xs s')
          else s_to_map_loop p res xs s)"

definition s_to_map :: "store \<Rightarrow> hval \<Rightarrow> string \<Rightarrow> string \<Rightarrow> store \<times> (error + hval)" where
  "s_to_map s l item_key path_delimiter =
     (let (s1, res) = alloc s (ODict []) in
      case py_split item_key path_delimiter of
        Inl e \<Rightarrow> (s1, Inl e)
      | Inr p \<Rightarrow>
          (case s_iter s1 l of
             Inl e \<Rightarrow> (s1, Inl e)
           | Inr xs \<Rightarrow>
               (case s_to_map_loop p res xs s1 of
                  (s2, Inl e) \<Rightarrow> (s2, Inl e)
                | (s2, Inr u) \<Rightarrow> (s2, Inr (HRef res)))))"

subsection \<open>\<^verbatim>\<open>format_items\<close> and \<^verbatim>\<open>to_kv_pairs\<close> on the store\<close>

fun s_format_each :: "sruntime \<Rightarrow> store \<Rightarrow> string \<Rightarrow> hval list \<Rightarrow> error + hval list" where
  "s_format_each rt s fmt [] = Inr []"
| "s_format_each rt s fmt (x # xs) =
     (case srt_format rt s fmt x of
        Inl e \<Rightarrow> Inl e
      | Inr t \<Rightarrow>
          (case s_format_each rt s fmt xs of Inl e \<Rightarrow> Inl e | Inr ts \<Rightarrow> Inr (HStr t # ts)))"

definition s_format_items :: "sruntime \<Rightarrow> store \<Rightarrow> hval \<Rightarrow> string \<Rightarrow> store \<times> (error + hval)" where
  "s_format_items rt s it fmt =
     (case s_iter s it of
        Inl e \<Rightarrow> (s, Inl e)
      | Inr xs \<Rightarrow>
          (case s_format_each rt s fmt xs of
             Inl e \<Rightarrow> (s, Inl e)
           | Inr ts \<Rightarrow> (let (s', r) = alloc s (OList ts) in (s', Inr (HRef r)))))"

fun h_is_scalar :: "sruntime \<Rightarrow> hval \<Rightarrow> bool" where
  "h_is_scalar rt (HStr t) = True"
| "h_is_scalar rt (HInt i) = is_machine_int (srt_maxint rt) i"
| "h_is_scalar rt (HBool b) = True"
| "h_is_scalar rt v = False"

fun s_str :: "sruntime \<Rightarrow> store \<Rightarrow> hval \<Rightarrow> string" where
  "s_str rt s HNone = ''None''"
| "s_str rt s (HBool b) = (if b then ''True'' else ''False'')"
| "s_str rt s (HInt i) = str_int i"
| "s_str rt s (HStr t) = t"
| "s_str rt s v = srt_str rt s v"

definition s_kv_render :: "sruntime \<Rightarrow> store \<Rightarrow> hval \<Rightarrow> hval \<Rightarrow> string" where
  "s_kv_render rt s k v =
     (if s_truthy s v then s_str rt s k @ ''='' @ s_str rt s v else s_str rt s k)"

definition s_to_kv_pairs :: "sruntime \<Rightarrow> store \<Rightarrow> hval \<Rightarrow> string \<Rightarrow> store \<times> (error + hval)" where
  "s_to_kv_pairs rt s d sep =
     (s, case d of
           HRef a \<Rightarrow>
             (case deref s a of
                Some (ODict e) \<Rightarrow>
                  Inr (HStr (py_join sep
                    (map (\<lambda>(k, v). s_kv_render rt s k v)
                       (filter (\<lambda>(k, v). \<not> s_truthy s v \<or> h_is_scalar rt v) e))))
              | _ \<Rightarrow> Inl AttributeError)
         | _ \<Rightarrow> Inl AttributeError)"

subsection \<open>\<^verbatim>\<open>map_keys\<close> on the store\<close>

text \<open>
  \<^verbatim>\<open>keys = d.keys()\<close> binds the local name to a new list; the caller's \<^verbatim>\<open>keys\<close> is not
  written to.
\<close>

definition s_find_keys :: "store \<Rightarrow> hval \<Rightarrow> hval \<Rightarrow> store \<times> (error + hval list)" where
  "s_find_keys s d keys =
     (if keys = HStr ''*''
      then (case d of
              HRef a \<Rightarrow>
                (case deref s a of
                   Some (ODict e) \<Rightarrow>
                     (let (s', r) = alloc s (OList (map fst e)) in (s', Inr (map fst e)))
                 | _ \<Rightarrow> (s, Inl AttributeError))
            | _ \<Rightarrow> (s, Inl AttributeError))
      else (case keys of
              HRef a \<Rightarrow>
                (case deref s a of
                   Some (OList ks) \<Rightarrow> (s, Inr ks)
                 | Some (OSet ks) \<Rightarrow> (s, Inr ks)
                 | _ \<Rightarrow> (s, Inl (AssertionError ''Expected an iterable of keys'')))
            | _ \<Rightarrow> (s, Inl (AssertionError ''Expected an iterable of keys''))))"

text \<open>
  A dict comprehension on the store: the new dict at address \<open>res\<close> takes one entry
  per key; the value is computed by \<open>g\<close>, which may build objects of its own.
\<close>

fun s_dict_comprehension ::
  "(store \<Rightarrow> hval \<times> 'a \<Rightarrow> store \<times> (error + hval)) \<Rightarrow> nat \<Rightarrow> (hval \<times> 'a) list \<Rightarrow> store
     \<Rightarrow> store \<times> (error + unit)" where
  "s_dict_comprehension g res [] s = (s, Inr ())"
| "s_dict_comprehension g res (kx # ks) s =
     (case g s kx of
        (s1, Inl e) \<Rightarrow> (s1, Inl e)
      | (s1, Inr v) \<Rightarrow>
          (case s_setitem s1 res (fst kx) v of
             (s2, Inl e) \<Rightarrow> (s2, Inl e)
           | (s2, Inr u) \<Rightarrow> s_dict_comprehension g res ks s2))"

definition s_source_value ::
  "sruntime \<Rightarrow> hval \<Rightarrow> string \<Rightarrow> string \<Rightarrow> store \<Rightarrow> hval \<times> unit \<Rightarrow> store \<times> (error + hval)" where
  "s_source_value rt d source_path path_delimiter s kx =
     (s, case srt_format rt s source_path (fst kx) of
           Inl e \<Rightarrow> Inl e
         | Inr t \<Rightarrow>
             (case py_split t path_delimiter of
                Inl e \<Rightarrow> Inl e
              | Inr p \<Rightarrow> s_resolve s p d))"

definition s_plain_value :: "hval \<Rightarrow> store \<Rightarrow> hval \<times> unit \<Rightarrow> store \<times> (error + hval)" where
  "s_plain_value d s kx = (s, s_get s d (fst kx))"

definition s_decoded_value :: "sruntime \<Rightarrow> store \<Rightarrow> hval \<times> hval \<Rightarrow> store \<times> (error + hval)" where
  "s_decoded_value rt s kv = srt_loads rt s (snd kv)"

definition s_entries :: "store \<Rightarrow> nat \<Rightarrow> (hval \<times> hval) list" where
  "s_entries s a = (case deref s a of Some (ODict e) \<Rightarrow> e | _ \<Rightarrow> [])"

definition s_map_keys ::
  "sruntime \<Rightarrow> store \<Rightarrow> hval \<Rightarrow> hval \<Rightarrow> hval \<Rightarrow> string \<Rightarrow> bool \<Rightarrow> store \<times> (error + hval)" where
  "s_map_keys rt s d keys source_path path_delimiter decode_json =
     (case s_find_keys s d keys of
        (s1, Inl e) \<Rightarrow> (s1, Inl e)
      | (s1, Inr ks) \<Rightarrow>
          (let (s2, res) = alloc s1 (ODict []) in
           case (case source_path of
                   HStr sp \<Rightarrow>
                     s_dict_comprehension (s_source_value rt d sp path_delimiter) res
                       (map (\<lambda>k. (k, ())) ks) s2
                 | _ \<Rightarrow> s_dict_comprehension (s_plain_value d) res (map (\<lambda>k. (k, ())) ks) s2) of
             (s3, Inl e) \<Rightarrow> (s3, Inl e)
           | (s3, Inr u) \<Rightarrow>
               if decode_json
               then (let (s4, res') = alloc s3 (ODict []) in
                     case s_dict_comprehension (s_decoded_value rt) res' (s_entries s4 res) s4 of
                       (s5, Inl e) \<Rightarrow> (s5, Inl e)
                     | (s5, Inr u') \<Rightarrow> (s5, Inr (HRef res')))
               else (s3, Inr (HRef res))))"

subsection \<open>\<^verbatim>\<open>filter_by_key\<close> on the store\<close>

definition s_equal :: "sruntime \<Rightarrow> store \<Rightarrow> hval \<Rightarrow> hval \<Rightarrow> bool" where
  "s_equal rt s a b =
     (if h_hashable a \<and> h_hashable b then h_key_eq a b else srt_equal rt s a b)"

fun s_contains :: "sruntime \<Rightarrow> store \<Rightarrow> hval \<Rightarrow> hval \<Rightarrow> error + bool" where
  "s_contains rt s (HRef a) key =
     (case deref s a of
        Some (ODict d) \<Rightarrow>
          if h_hashable key then Inr (h_dict_find d key \<noteq> None) else Inl TypeError
      | Some (OSet xs) \<Rightarrow>
          if h_hashable key then Inr (list_ex (\<lambda>y. h_key_eq y key) xs)
          else (case key of
                  HRef b \<Rightarrow> (case deref s b of Some (OSet ys) \<Rightarrow> Inr False | _ \<Rightarrow> Inl TypeError)
                | _ \<Rightarrow> Inl TypeError)
      | Some (OList xs) \<Rightarrow> Inr (list_ex (\<lambda>y. s_equal rt s y key) xs)
      | None \<Rightarrow> Inl TypeError)"
| "s_contains rt s (HTuple xs) key = Inr (list_ex (\<lambda>y. s_equal rt s y key) xs)"
| "s_contains rt s (HStr t) key =
     (case key of HStr u \<Rightarrow> Inr (is_substring u t) | _ \<Rightarrow> Inl TypeError)"
| "s_contains rt s v key = Inl TypeError"

definition s_call_binary :: "sruntime \<Rightarrow> store \<Rightarrow> binop \<Rightarrow> hval \<Rightarrow> hval \<Rightarrow> error + bool" where
  "s_call_binary rt s t a b =
     (if t = Eq then Inr (s_equal rt s a b)
      else if t = Ne then Inr (\<not> s_equal rt s a b)
      else (case (h_num_of a, h_num_of b) of
              (Some i, Some j) \<Rightarrow> Inr (int_order t i j)
            | _ \<Rightarrow>
                (case (a, b) of
                   (HStr u, HStr w) \<Rightarrow> Inr (str_order t u w)
                 | _ \<Rightarrow> srt_compare rt s t a b)))"

definition s_key_and ::
  "sruntime \<Rightarrow> store \<Rightarrow> hval \<Rightarrow> (hval \<Rightarrow> error + bool) \<Rightarrow> hval \<Rightarrow> error + bool" where
  "s_key_and rt s key test x =
     (case s_contains rt s x key of
        Inl e \<Rightarrow> Inl e
      | Inr c \<Rightarrow>
          if c then (case s_get s x key of Inl e \<Rightarrow> Inl e | Inr v \<Rightarrow> test v)
          else Inr False)"

fun s_call_unary :: "store \<Rightarrow> unop \<Rightarrow> hval \<Rightarrow> error + bool" where
  "s_call_unary s Op_not v = Inr (\<not> s_truthy s v)"
| "s_call_unary s Op_truth v = Inr (s_truthy s v)"
| "s_call_unary s Op_is v = Inl TypeError"
| "s_call_unary s Op_is_not v = Inl TypeError"

definition s_choose_pred ::
  "sruntime \<Rightarrow> store \<Rightarrow> hval \<Rightarrow> string \<Rightarrow> hval \<Rightarrow> (hval \<Rightarrow> error + bool) option" where
  "s_choose_pred rt s key op val =
     (if op = ''exists'' then Some (\<lambda>x. s_contains rt s x key)
      else (case unary_ops op of
              Some t \<Rightarrow> Some (s_key_and rt s key (s_call_unary s t))
            | None \<Rightarrow>
                (case binary_ops op of
                   Some t \<Rightarrow> Some (s_key_and rt s key (\<lambda>v. s_call_binary rt s t v val))
                 | None \<Rightarrow> None)))"

fun h_chars_of :: "hval list \<Rightarrow> string" where
  "h_chars_of [] = []"
| "h_chars_of (HStr t # xs) = t @ h_chars_of xs"
| "h_chars_of (v # xs) = h_chars_of xs"

text \<open>\<^verbatim>\<open>filter(pred, l)\<close> builds a new list, or returns a tuple or a string.\<close>

definition s_filter_by_key ::
  "sruntime \<Rightarrow> store \<Rightarrow> hval \<Rightarrow> hval \<Rightarrow> string \<Rightarrow> hval \<Rightarrow> store \<times> (error + hval)" where
  "s_filter_by_key rt s l key op val =
     (case s_choose_pred rt s key op val of
        None \<Rightarrow> (s, Inl (ValueError (''Unknown operator: '' @ op)))
      | Some pred \<Rightarrow>
          (case s_iter s l of
             Inl e \<Rightarrow> (s, Inl e)
           | Inr xs \<Rightarrow>
               (case filter_items pred xs of
                  Inl e \<Rightarrow> (s, Inl e)
                | Inr ys \<Rightarrow>
                    (case l of
                       HTuple zs \<Rightarrow> (s, Inr (HTuple ys))
                     | HStr t \<Rightarrow> (s, Inr (HStr (h_chars_of ys)))
                     | _ \<Rightarrow> (let (s', r) = alloc s (OList ys) in (s', Inr (HRef r)))))))"

text \<open>
  An interpreter on the store to run examples with: \<^verbatim>\<open>json.loads\<close> and the
  other built-ins raise \<^verbatim>\<open>TypeError\<close> and leave the store alone.
\<close>

definition bare_sruntime :: sruntime where
  "bare_sruntime =
     \<lparr> srt_maxint = 9223372036854775807,
       srt_str = (\<lambda>s v. []),
       srt_format = (\<lambda>s fmt x. Inl TypeError),
       srt_loads = (\<lambda>s v. (s, Inl TypeError)),
       srt_equal = (\<lambda>s a b. False),
       srt_compare = (\<lambda>s t a b. Inl TypeError) \<rparr>"

section \<open>Properties\<close>

subsection \<open>\<^verbatim>\<open>one\<close>\<close>

lemma one_list_cases:
  "one (PList xs) =
     (case xs of
        [] \<Rightarrow> Inl (ValueError ''The list is empty'')
      | [x] \<Rightarrow> Inr x
      | _ \<Rightarrow> Inl (ValueError ''The list contains more than 1 element''))"
  by (simp add: one_def split: list.splits)

lemma one_tuple_cases:
  "one (PTuple xs) =
     (case xs of
        [] \<Rightarrow> Inl (ValueError ''The list is empty'')
      | [x] \<Rightarrow> Inr x
      | _ \<Rightarrow> Inl (ValueError ''The list contains more than 1 element''))"
  by (simp add: one_def split: list.splits)

text \<open>
  Claim C5. For a sequence \<open>l\<close> (a list or a tuple), \<open>one l\<close> returns the sole element
  when \<open>l\<close> has exactly one element, and fails with the cardinality error (the source's
  \<^verbatim>\<open>ValueError\<close>) when \<open>l\<close> is empty or has more than one element. In particular
  \<^verbatim>\<open>one([5]) == 5\<close>, and \<^verbatim>\<open>one([])\<close> and \<^verbatim>\<open>one([1,2])\<close> fail.
\<close>

theorem one_sole_element_or_cardinality_error:
  "(l = PList xs \<or> l = PTuple xs) \<longrightarrow>
     (\<forall>x. xs = [x] \<longrightarrow> one l = Inr x)
     \<and> (xs = [] \<longrightarrow> one l = Inl (ValueError ''The list is empty''))
     \<and> (length xs > 1 \<longrightarrow> one l = Inl (ValueError ''The list contains more than 1 element''))
     \<and> one (PList [PInt 5]) = Inr (PInt 5)
     \<and> one (PList []) = Inl (ValueError ''The list is empty'')
     \<and> one (PList [PInt 1, PInt 2]) = Inl (ValueError ''The list contains more than 1 element'')"
proof (intro impI conjI allI)
  fix x assume "l = PList xs \<or> l = PTuple xs" "xs = [x]"
  then show "one l = Inr x"
    by (auto simp: one_list_cases one_tuple_cases)
next
  assume "l = PList xs \<or> l = PTuple xs" "xs = []"
  then show "one l = Inl (ValueError ''The list is empty'')"
    by (auto simp: one_list_cases one_tuple_cases)
next
  assume "l = PList xs \<or> l = PTuple xs" "length xs > 1"
  then show "one l = Inl (ValueError ''The list contains more than 1 element'')"
    by (cases xs; cases "tl xs") (auto simp: one_list_cases one_tuple_cases)
qed (simp_all add: one_list_cases)

theorem one_sole_element_or_cardinality_error_witness:
  "one (PTuple [PStr ''a'']) = Inr (PStr ''a'')
   \<and> one (PTuple []) = Inl (ValueError ''The list is empty'')
   \<and> one (PList [PNone, PNone, PNone]) = Inl (ValueError ''The list contains more than 1 element'')"
  using one_sole_element_or_cardinality_error [of "PTuple [PStr ''a'']" "[PStr ''a'']"]
        one_sole_element_or_cardinality_error [of "PTuple []" "[]"]
        one_sole_element_or_cardinality_error [of "PList [PNone, PNone, PNone]" "[PNone, PNone, PNone]"]
  by simp

subsection \<open>\<^verbatim>\<open>flatten_list\<close>\<close>

lemma reduce_total:
  "reduce (\<lambda>z x. Inr (f z x)) xs z = Inr (foldl f z xs)"
  by (induction xs arbitrary: z) simp_all

lemma flatten_list_acc_leaves:
  "flatten_list_acc pres y = pres @ leaves y"
proof (induction pres y rule: flatten_list_acc.induct)
  case (1 pres ys)
  have "foldl flatten_list_acc acc zs = acc @ concat (map leaves zs)"
    if "set zs \<subseteq> set ys" for acc zs
    using that
  proof (induction zs arbitrary: acc)
    case Nil
    show ?case by simp
  next
    case (Cons z zs)
    then show ?case using "1.IH" [of z acc] by simp
  qed
  then show ?case by simp
next
  case (2 pres ys)
  have "foldl flatten_list_acc acc zs = acc @ concat (map leaves zs)"
    if "set zs \<subseteq> set ys" for acc zs
    using that
  proof (induction zs arbitrary: acc)
    case Nil
    show ?case by simp
  next
    case (Cons z zs)
    then show ?case using "2.IH" [of z acc] by simp
  qed
  then show ?case by simp
next
  case (3 pres ys)
  have "foldl flatten_list_acc acc zs = acc @ concat (map leaves zs)"
    if "set zs \<subseteq> set ys" for acc zs
    using that
  proof (induction zs arbitrary: acc)
    case Nil
    show ?case by simp
  next
    case (Cons z zs)
    then show ?case using "3.IH" [of z acc] by simp
  qed
  then show ?case by simp
qed simp_all

lemma foldl_flatten_list_acc:
  "foldl flatten_list_acc pres ys = pres @ concat (map leaves ys)"
  by (induction ys arbitrary: pres) (simp_all add: flatten_list_acc_leaves)

lemma leaves_not_list_type:
  "v \<in> set (leaves y) \<Longrightarrow> \<not> is_list_type v"
  by (induction y arbitrary: v rule: leaves.induct) auto

lemma flatten_list_iter:
  "py_iter l = Inr ys \<Longrightarrow> flatten_list l = Inr (PList (concat (map leaves ys)))"
  by (simp add: flatten_list_def reduce_total foldl_flatten_list_acc)

lemma leaves_flat:
  "\<forall>y \<in> set ys. \<not> is_list_type y \<Longrightarrow> concat (map leaves ys) = ys"
proof (induction ys)
  case Nil
  show ?case by simp
next
  case (Cons y ys)
  then have "leaves y = [y]" by (cases y) simp_all
  with Cons show ?case by simp
qed

text \<open>
  Claim C7. For a nested sequence \<open>l\<close> (a list, set or tuple; values of the model are
  finite and acyclic), \<open>flatten_list l\<close> returns the list of the non-sequence leaves of
  \<open>l\<close>, depth first and left to right: lists, sets and tuples are expanded, every other
  value (a mapping too) is kept as it is, and an empty nested sequence adds nothing. No
  element of the result is a list, set or tuple. In particular
  \<^verbatim>\<open>flatten_list([[1,[2,3]],[],[4]]) == [1,2,3,4]\<close>.
\<close>

theorem flatten_list_depth_first_leaves:
  "is_list_type l \<longrightarrow>
     flatten_list l = Inr (PList (leaves l))
     \<and> (\<forall>v \<in> set (leaves l). \<not> is_list_type v)
     \<and> flatten_list (PList [PDict d, PList []]) = Inr (PList [PDict d])
     \<and> flatten_list (PList [PList [PInt 1, PList [PInt 2, PInt 3]], PList [], PList [PInt 4]])
         = Inr (PList [PInt 1, PInt 2, PInt 3, PInt 4])"
proof (intro impI conjI)
  assume l: "is_list_type l"
  then obtain ys where ys: "py_iter l = Inr ys" "leaves l = concat (map leaves ys)"
    by (cases l) simp_all
  then show "flatten_list l = Inr (PList (leaves l))"
    by (simp add: flatten_list_iter)
  show "\<forall>v \<in> set (leaves l). \<not> is_list_type v"
    using leaves_not_list_type by blast
  show "flatten_list (PList [PDict d, PList []]) = Inr (PList [PDict d])"
    by (simp add: flatten_list_iter)
  show "flatten_list (PList [PList [PInt 1, PList [PInt 2, PInt 3]], PList [], PList [PInt 4]])
         = Inr (PList [PInt 1, PInt 2, PInt 3, PInt 4])"
    by (simp add: flatten_list_iter)
qed

theorem flatten_list_depth_first_leaves_witness:
  "is_list_type (PTuple [PSet [PStr ''a'', PTuple []], PNone, PList [PList [PBool True]]])
   \<and> flatten_list (PTuple [PSet [PStr ''a'', PTuple []], PNone, PList [PList [PBool True]]])
       = Inr (PList [PStr ''a'', PNone, PBool True])"
  using flatten_list_depth_first_leaves
    [of "PTuple [PSet [PStr ''a'', PTuple []], PNone, PList [PList [PBool True]]]"]
  by simp

text \<open>
  Claim C8. On an already flat sequence \<open>x\<close> (a list, set or tuple none of whose
  elements is a list, set or tuple) flattening twice is flattening once:
  \<^verbatim>\<open>flatten_list(flatten_list(x)) == flatten_list(x)\<close>. The first call succeeds with the
  list of the elements of \<open>x\<close>, and the second call returns that list again.
\<close>

theorem flatten_list_idempotent_on_flat:
  "is_list_type x \<and> py_iter x = Inr xs \<and> (\<forall>y \<in> set xs. \<not> is_list_type y) \<longrightarrow>
     flatten_list x = Inr (PList xs)
     \<and> (case flatten_list x of Inl e \<Rightarrow> Inl e | Inr r \<Rightarrow> flatten_list r) = flatten_list x"
proof (intro impI conjI)
  assume a: "is_list_type x \<and> py_iter x = Inr xs \<and> (\<forall>y \<in> set xs. \<not> is_list_type y)"
  then have flat: "concat (map leaves xs) = xs"
    by (simp add: leaves_flat)
  from a flat show first: "flatten_list x = Inr (PList xs)"
    by (simp add: flatten_list_iter)
  have "flatten_list (PList xs) = Inr (PList xs)"
    using flat by (simp add: flatten_list_iter)
  with first show
    "(case flatten_list x of Inl e \<Rightarrow> Inl e | Inr r \<Rightarrow> flatten_list r) = flatten_list x"
    by simp
qed

theorem flatten_list_idempotent_on_flat_witness:
  "is_list_type (PTuple [PInt 1, PStr ''ab'', PDict [(PStr ''k'', PList [])]])
   \<and> flatten_list (PTuple [PInt 1, PStr ''ab'', PDict [(PStr ''k'', PList [])]])
       = Inr (PList [PInt 1, PStr ''ab'', PDict [(PStr ''k'', PList [])]])
   \<and> flatten_list (PList [PInt 1, PStr ''ab'', PDict [(PStr ''k'', PList [])]])
       = Inr (PList [PInt 1, PStr ''ab'', PDict [(PStr ''k'', PList [])]])"
proof -
  let ?xs = "[PInt 1, PStr ''ab'', PDict [(PStr ''k'', PList [])]]"
  have pre: "is_list_type (PTuple ?xs) \<and> py_iter (PTuple ?xs) = Inr ?xs
      \<and> (\<forall>y \<in> set ?xs. \<not> is_list_type y)"
    by simp
  from flatten_list_idempotent_on_flat [of "PTuple ?xs" ?xs] pre
  have once: "flatten_list (PTuple ?xs) = Inr (PList ?xs)"
    and twice: "(case flatten_list (PTuple ?xs) of Inl e \<Rightarrow> Inl e | Inr r \<Rightarrow> flatten_list r)
        = flatten_list (PTuple ?xs)"
    by blast+
  from twice have "flatten_list (PList ?xs) = Inr (PList ?xs)"
    unfolding once by simp
  with once show ?thesis by simp
qed

subsection \<open>Key paths\<close>






subsection \<open>\<^verbatim>\<open>to_map\<close>\<close>

lemma key_norm_is_int: "key_norm w = PInt i \<longleftrightarrow> num_of w = Some i"
  by (cases w) auto

lemma py_eq_key_norm:
  "hashable a \<Longrightarrow> py_eq a b = (key_norm a = key_norm b)"
proof (induction a arbitrary: b rule: hashable.induct)
  case (5 xs)
  show ?case
  proof (cases b)
    case (PTuple ys)
    from 5 have "list_all2 py_eq xs zs = (map key_norm xs = map key_norm zs)" for zs
    proof (induction xs arbitrary: zs)
      case Nil
      show ?case by auto
    next
      case (Cons x xs)
      then show ?case by (cases zs) auto
    qed
    with PTuple show ?thesis by simp
  qed simp_all
next
  case (2 c)
  show ?case using key_norm_is_int [of b] by (cases b) auto
next
  case (3 i)
  show ?case using key_norm_is_int [of b] by (cases b) auto
next
  case 1
  show ?case by (cases b) auto
next
  case (4 s)
  show ?case by (cases b) auto
qed simp_all

lemma dict_find_update:
  "hashable k \<Longrightarrow> keys_hashable d \<Longrightarrow>
   dict_find (dict_update d k x) k2 = (if py_eq k k2 then Some x else dict_find d k2)"
proof (induction d)
  case Nil
  then show ?case by simp
next
  case (Cons kv d)
  obtain k' v where kv: "kv = (k', v)" by (cases kv)
  with Cons have h: "hashable k'" by (simp add: keys_hashable_def)
  from Cons kv have IH: "dict_find (dict_update d k x) k2 = (if py_eq k k2 then Some x else dict_find d k2)"
    by (simp add: keys_hashable_def)
  show ?case using IH h Cons.prems(1) 
    by (auto simp: kv py_eq_key_norm)
qed

lemma keys_hashable_update:
  "hashable k \<Longrightarrow> keys_hashable d \<Longrightarrow> keys_hashable (dict_update d k x)"
  by (induction d) (auto simp: keys_hashable_def)


lemma find_app:
  "find P (xs @ ys) = (case find P xs of Some y \<Rightarrow> Some y | None \<Rightarrow> find P ys)"
  by (induction xs) simp_all

lemma last_item_with_key_Cons:
  "last_item_with_key p (x # xs) k =
     (case last_item_with_key p xs k of
        Some y \<Rightarrow> Some y
      | None \<Rightarrow> if resolves_to p k x then Some x else None)"
  by (simp add: last_item_with_key_def find_app split: option.splits)

lemma to_map_loop_lookup:
  assumes "keys_hashable res0"
    and "\<forall>x \<in> set xs. \<exists>k. resolve p x = Inr k \<and> (truthy k \<longrightarrow> hashable k)"
  shows "\<exists>res. to_map_loop p xs res0 = Inr res \<and> keys_hashable res
           \<and> (\<forall>k. dict_find res k =
                 (case last_item_with_key p xs k of
                    Some y \<Rightarrow> Some y
                  | None \<Rightarrow> dict_find res0 k))"
  using assms
proof (induction xs arbitrary: res0)
  case Nil
  then show ?case by (simp add: last_item_with_key_def)
next
  case (Cons x xs)
  from Cons.prems obtain kx where kx: "resolve p x = Inr kx" "truthy kx \<longrightarrow> hashable kx"
    by auto
  from Cons.prems have rest: "\<forall>y \<in> set xs. \<exists>k. resolve p y = Inr k \<and> (truthy k \<longrightarrow> hashable k)"
    by simp
  show ?case
  proof (cases "truthy kx")
    case False
    with kx have step: "to_map_loop p (x # xs) res0 = to_map_loop p xs res0"
      by simp
    from False kx have nomatch: "\<not> resolves_to p k x" for k
      by (simp add: resolves_to_def)
    from Cons.IH [OF Cons.prems(1) rest] obtain res where
      res: "to_map_loop p xs res0 = Inr res" "keys_hashable res"
        "\<forall>k. dict_find res k =
           (case last_item_with_key p xs k of Some y \<Rightarrow> Some y | None \<Rightarrow> dict_find res0 k)"
      by blast
    show ?thesis
      using res step nomatch
      by (simp add: last_item_with_key_Cons split: option.splits)
  next
    case True
    with kx have hk: "hashable kx" by simp
    let ?res1 = "dict_update res0 kx x"
    from True kx hk have step: "to_map_loop p (x # xs) res0 = to_map_loop p xs ?res1"
      by (simp add: dict_setitem_def)
    have kh1: "keys_hashable ?res1"
      using hk Cons.prems(1) by (rule keys_hashable_update)
    from True kx have match: "resolves_to p k x = py_eq kx k" for k
      by (simp add: resolves_to_def)
    from Cons.IH [OF kh1 rest] obtain res where
      res: "to_map_loop p xs ?res1 = Inr res" "keys_hashable res"
        "\<forall>k. dict_find res k =
           (case last_item_with_key p xs k of Some y \<Rightarrow> Some y | None \<Rightarrow> dict_find ?res1 k)"
      by blast
    have "dict_find res k =
           (case last_item_with_key p (x # xs) k of Some y \<Rightarrow> Some y | None \<Rightarrow> dict_find res0 k)"
      for k
      using res(3) match [of k] dict_find_update [OF hk Cons.prems(1), of x k]
      by (simp add: last_item_with_key_Cons split: option.splits)
    with res step show ?thesis by simp
  qed
qed

text \<open>
  Outside these conditions \<^verbatim>\<open>to_map\<close> raises: on an empty delimiter, and as soon as
  the loop meets an item whose key path raises or resolves to a truthy value that
  cannot be hashed.
\<close>

lemma to_map_empty_delimiter:
  "to_map l item_key [] = Inl (ValueError ''empty separator'')"
  by (simp add: to_map_def py_split_def)

lemma to_map_loop_raises:
  "\<exists>x \<in> set xs. (\<exists>e. resolve p x = Inl e)
      \<or> (\<exists>k. resolve p x = Inr k \<and> truthy k \<and> \<not> hashable k)
   \<Longrightarrow> \<exists>e. to_map_loop p xs res = Inl e"
proof (induction xs arbitrary: res)
  case Nil
  then show ?case by simp
next
  case (Cons x xs)
  show ?case
  proof (cases "resolve p x")
    case (Inl e)
    then show ?thesis by simp
  next
    case (Inr k)
    show ?thesis
    proof (cases "truthy k")
      case False
      with Inr Cons.prems have "\<exists>y \<in> set xs. (\<exists>e. resolve p y = Inl e)
          \<or> (\<exists>k. resolve p y = Inr k \<and> truthy k \<and> \<not> hashable k)"
        by auto
      from Cons.IH [OF this, of res] Inr False show ?thesis by simp
    next
      case True
      show ?thesis
      proof (cases "hashable k")
        case False
        with Inr True show ?thesis by (simp add: dict_setitem_def)
      next
        case h: True
        with Inr Cons.prems have "\<exists>y \<in> set xs. (\<exists>e. resolve p y = Inl e)
            \<or> (\<exists>k. resolve p y = Inr k \<and> truthy k \<and> \<not> hashable k)"
          by auto
        from Cons.IH [OF this, of "dict_update res k x"] Inr True h show ?thesis
          by (simp add: dict_setitem_def)
      qed
    qed
  qed
qed

text \<open>
  Claim C2, as the specification states it, fails: \<^verbatim>\<open>to_map\<close> does not return a
  mapping for every sequence of mapping-typed items. A truthy value that is no mapping,
  reached before the last key of the path, has no \<^verbatim>\<open>get\<close>; a truthy resolved key that
  is a list cannot be a dict key; and an empty delimiter cannot split the key path.
\<close>

theorem to_map_raises_counterexample:
  "to_map (PList [PDict [(PStr ''a'', PInt 5)]]) ''a.b'' ''.'' = Inl AttributeError
   \<and> to_map (PList [PDict [(PStr ''id'', PList [PInt 1])]]) ''id'' ''.'' = Inl TypeError
   \<and> to_map (PList []) ''id'' [] = Inl (ValueError ''empty separator'')"
  by code_simp

text \<open>
  Claim C2, amended. Let the delimiter be non-empty, so that the key path splits into
  \<open>p\<close>, and let \<open>l\<close> be a sequence in which every item's key path resolves without an
  error to a value that is falsy or hashable. Then \<open>to_map\<close> returns a mapping, and
  the mapping binds a key \<open>k\<close> to the last item of the sequence whose key path
  resolves to a truthy value equal to \<open>k\<close>; a key no item resolves to is unbound. So
  items whose resolved key is falsy or absent are skipped and a later item wins over an
  earlier one with the same key. An empty sequence gives the empty mapping, and
  \<^verbatim>\<open>to_map([{"id":0,"v":1},{"id":"b","v":2}], "id") == {"b":{"id":"b","v":2}}\<close>.
\<close>

theorem to_map_binds_last_item:
  "py_split item_key path_delimiter = Inr p
   \<and> (l = PList xs \<or> l = PTuple xs)
   \<and> (\<forall>x \<in> set xs. \<exists>k. resolve p x = Inr k \<and> (truthy k \<longrightarrow> hashable k))
   \<longrightarrow>
     (\<exists>res. to_map l item_key path_delimiter = Inr (PDict res)
         \<and> (\<forall>k. dict_find res k = last_item_with_key p xs k))
     \<and> to_map (PList []) item_key path_delimiter = Inr (PDict [])
     \<and> to_map (PList [PDict [(PStr ''id'', PInt 0), (PStr ''v'', PInt 1)],
                      PDict [(PStr ''id'', PStr ''b''), (PStr ''v'', PInt 2)]]) ''id'' ''.''
         = Inr (PDict [(PStr ''b'', PDict [(PStr ''id'', PStr ''b''), (PStr ''v'', PInt 2)])])"
proof (intro impI conjI)
  assume a: "py_split item_key path_delimiter = Inr p
   \<and> (l = PList xs \<or> l = PTuple xs)
   \<and> (\<forall>x \<in> set xs. \<exists>k. resolve p x = Inr k \<and> (truthy k \<longrightarrow> hashable k))"
  then have it: "py_iter l = Inr xs" by auto
  have "keys_hashable []" by (simp add: keys_hashable_def)
  from to_map_loop_lookup [OF this, of xs p] a obtain res where
    res: "to_map_loop p xs [] = Inr res"
      "\<forall>k. dict_find res k =
         (case last_item_with_key p xs k of Some y \<Rightarrow> Some y | None \<Rightarrow> dict_find [] k)"
    by blast
  from res(2) have "\<forall>k. dict_find res k = last_item_with_key p xs k"
    by (simp split: option.splits)
  with res(1) a it
  show "\<exists>res. to_map l item_key path_delimiter = Inr (PDict res)
         \<and> (\<forall>k. dict_find res k = last_item_with_key p xs k)"
    by (simp add: to_map_def)
  from a show "to_map (PList []) item_key path_delimiter = Inr (PDict [])"
    by (simp add: to_map_def)
  show "to_map (PList [PDict [(PStr ''id'', PInt 0), (PStr ''v'', PInt 1)],
                      PDict [(PStr ''id'', PStr ''b''), (PStr ''v'', PInt 2)]]) ''id'' ''.''
         = Inr (PDict [(PStr ''b'', PDict [(PStr ''id'', PStr ''b''), (PStr ''v'', PInt 2)])])"
    by code_simp
qed

theorem to_map_binds_last_item_witness:
  "\<exists>res. to_map (PList [PDict [(PStr ''id'', PInt 0), (PStr ''v'', PInt 1)],
                        PDict [(PStr ''id'', PStr ''b''), (PStr ''v'', PInt 2)],
                        PDict [(PStr ''id'', PStr ''b''), (PStr ''v'', PInt 3)]]) ''id'' ''.''
            = Inr (PDict res)
     \<and> dict_find res (PStr ''b'') = Some (PDict [(PStr ''id'', PStr ''b''), (PStr ''v'', PInt 3)])
     \<and> dict_find res (PInt 0) = None"
proof -
  let ?a = "PDict [(PStr ''id'', PInt 0), (PStr ''v'', PInt 1)]"
  let ?b = "PDict [(PStr ''id'', PStr ''b''), (PStr ''v'', PInt 2)]"
  let ?c = "PDict [(PStr ''id'', PStr ''b''), (PStr ''v'', PInt 3)]"
  have sp: "py_split ''id'' ''.'' = Inr [''id'']"
    by code_simp
  have ok: "\<forall>x \<in> set [?a, ?b, ?c]. \<exists>k. resolve [''id''] x = Inr k \<and> (truthy k \<longrightarrow> hashable k)"
    by (simp add: resolve_def key_step_def)
  have b: "last_item_with_key [''id''] [?a, ?b, ?c] (PStr ''b'') = Some ?c"
    by (simp add: last_item_with_key_def resolves_to_def resolve_def key_step_def)
  have z: "last_item_with_key [''id''] [?a, ?b, ?c] (PInt 0) = None"
    by (simp add: last_item_with_key_def resolves_to_def resolve_def key_step_def)
  from to_map_binds_last_item [of "''id''" "''.''" "[''id'']" "PList [?a, ?b, ?c]" "[?a, ?b, ?c]"] sp ok
  obtain res where "to_map (PList [?a, ?b, ?c]) ''id'' ''.'' = Inr (PDict res)"
    "\<forall>k. dict_find res k = last_item_with_key [''id''] [?a, ?b, ?c] k"
    by blast
  with b z show ?thesis by auto
qed

subsection \<open>\<^verbatim>\<open>filter_by_key\<close>\<close>


lemma unary_ops_names:
  "(\<exists>t. unary_ops op = Some t) \<longleftrightarrow> op \<in> {''not'', ''truth'', ''is'', ''is_not''}"
  by (auto simp: unary_ops_def split: if_splits)


lemma unary_op_not_exists:
  "unary_ops op = Some t \<Longrightarrow> op \<noteq> ''exists''"
  by (auto simp: unary_ops_def split: if_splits)

lemma key_and_dict:
  "is_dict x \<Longrightarrow> hashable key \<Longrightarrow>
   key_and key test x = (if has_key x key then test (item_at x key) else Inr False)"
  by (cases x) (simp_all add: key_and_def)

lemma filter_items_total:
  "\<forall>x \<in> set xs. \<exists>b. pred x = Inr b \<Longrightarrow>
   filter_items pred xs = Inr (filter (\<lambda>x. pred x = Inr True) xs)"
proof (induction xs)
  case Nil
  show ?case by simp
next
  case (Cons x xs)
  then obtain b where "pred x = Inr b" by auto
  with Cons show ?case by simp
qed

lemma filter_items_error:
  "pred x = Inl e \<Longrightarrow> x \<in> set xs \<Longrightarrow> \<exists>e'. filter_items pred xs = Inl e'"
  by (induction xs) (auto split: sum.splits)

lemma filter_by_key_pred:
  assumes "choose_pred rt key op val = Some (key_and key test)"
    and "\<forall>x \<in> set xs. is_dict x"
    and "hashable key"
    and "\<forall>x \<in> set xs. has_key x key \<longrightarrow> (\<exists>b. test (item_at x key) = Inr b)"
  shows "filter_by_key rt (PList xs) key op val =
           Inr (PList (filter (\<lambda>x. has_key x key \<and> test (item_at x key) = Inr True) xs))"
proof -
  have total: "\<forall>x \<in> set xs. \<exists>b. key_and key test x = Inr b"
    using assms(2-4) by (auto simp: key_and_dict)
  have same: "filter (\<lambda>x. key_and key test x = Inr True) xs
      = filter (\<lambda>x. has_key x key \<and> test (item_at x key) = Inr True) xs"
    using assms(2,3) by (intro filter_cong) (auto simp: key_and_dict)
  show ?thesis
    using filter_items_total [OF total] same assms(1)
    by (simp add: filter_by_key_def py_filter_def)
qed

text \<open>
  The operators \<^verbatim>\<open>not\<close> and \<^verbatim>\<open>truth\<close> select the items that contain the key and
  whose value under it is falsy, respectively truthy.
\<close>

lemma filter_by_key_not_truth:
  assumes "\<forall>x \<in> set xs. is_dict x" and "hashable key"
  shows "filter_by_key rt (PList xs) key ''not'' val =
           Inr (PList (filter (\<lambda>x. has_key x key \<and> \<not> truthy (item_at x key)) xs))"
    and "filter_by_key rt (PList xs) key ''truth'' val =
           Inr (PList (filter (\<lambda>x. has_key x key \<and> truthy (item_at x key)) xs))"
proof -
  have n: "choose_pred rt key ''not'' val = Some (key_and key (call_unary Op_not))"
    by (simp add: choose_pred_def unary_ops_def)
  have t: "choose_pred rt key ''truth'' val = Some (key_and key (call_unary Op_truth))"
    by (simp add: choose_pred_def unary_ops_def)
  show "filter_by_key rt (PList xs) key ''not'' val =
           Inr (PList (filter (\<lambda>x. has_key x key \<and> \<not> truthy (item_at x key)) xs))"
    using filter_by_key_pred [OF n assms] by simp
  show "filter_by_key rt (PList xs) key ''truth'' val =
           Inr (PList (filter (\<lambda>x. has_key x key \<and> truthy (item_at x key)) xs))"
    using filter_by_key_pred [OF t assms] by simp
qed

text \<open>
  Claim C3 does not hold of the code for \<^verbatim>\<open>is\<close> and \<^verbatim>\<open>is_not\<close>: the table
  \<^verbatim>\<open>unary_ops\<close> binds them to the two-argument functions \<^verbatim>\<open>operator.is_\<close> and
  \<^verbatim>\<open>operator.is_not\<close>, which the predicate calls with one argument. As soon as an item
  contains the key the call raises \<^verbatim>\<open>TypeError\<close>, so no list of items is returned.
\<close>

theorem filter_by_key_is_raises:
  "filter_by_key rt (PList [PDict [(PStr ''k'', PNone)]]) (PStr ''k'') ''is'' PNone
     = Inl TypeError
   \<and> filter_by_key rt (PList [PDict [(PStr ''k'', PInt 1)]]) (PStr ''k'') ''is_not'' PNone
     = Inl TypeError"
  by (simp add: filter_by_key_def choose_pred_def unary_ops_def py_filter_def key_and_def)



subsection \<open>\<^verbatim>\<open>to_kv_pairs\<close>\<close>

text \<open>
  When every integer value of the mapping is an \<^verbatim>\<open>int\<close>, the code includes and renders
  the entries as the specification says: it joins with the separator, in the mapping's
  order, the tokens of exactly the entries whose value is a scalar or falsy.
\<close>

lemma to_kv_pairs_tokens:
  assumes "\<forall>kv \<in> set d. \<forall>i. snd kv = PInt i \<longrightarrow> is_machine_int (rt_maxint rt) i"
  shows "to_kv_pairs rt (PDict d) sep =
     Inr (PStr (py_join sep (map (kv_token rt) (filter kv_included d))))"
proof -
  have same: "is_scalar rt (snd kv) = spec_scalar (snd kv)" if "kv \<in> set d" for kv
    using that assms by (cases "snd kv") auto
  have "filter (kv_kept rt) d = filter kv_included d"
    by (intro filter_cong) (auto simp: kv_kept_def kv_included_def same)
  moreover have "(\<lambda>(k, v). kv_render rt k v) = kv_token rt"
    by (auto simp: kv_render_def kv_token_def fun_eq_iff)
  ultimately show ?thesis by simp
qed

text \<open>
  A single entry shows the three cases of the code: a falsy value gives the bare key, a
  truthy value that passes \<^verbatim>\<open>isinstance(v, scalar_types)\<close> gives \<^verbatim>\<open>key=value\<close>, and any
  other truthy value is dropped. \<^verbatim>\<open>{"a":"x","b":"","c":[1,2]}\<close> gives \<^verbatim>\<open>a=x,b\<close>, wherever
  the dropped entry stands, and \<^verbatim>\<open>b,a=x\<close> when the mapping lists \<^verbatim>\<open>b\<close> first.
\<close>

lemma to_kv_pairs_cases:
  "(\<not> truthy v \<longrightarrow> to_kv_pairs rt (PDict [(k, v)]) sep = Inr (PStr (py_str rt k)))
   \<and> (truthy v \<and> is_scalar rt v \<longrightarrow>
        to_kv_pairs rt (PDict [(k, v)]) sep = Inr (PStr (py_str rt k @ ''='' @ py_str rt v)))
   \<and> (truthy v \<and> \<not> is_scalar rt v \<longrightarrow> to_kv_pairs rt (PDict [(k, v)]) sep = Inr (PStr []))
   \<and> to_kv_pairs rt
        (PDict [(PStr ''a'', PStr ''x''), (PStr ''b'', PStr []),
                (PStr ''c'', PList [PInt 1, PInt 2])]) '',''
       = Inr (PStr ''a=x,b'')
   \<and> to_kv_pairs rt
        (PDict [(PStr ''a'', PStr ''x''), (PStr ''c'', PList [PInt 1, PInt 2]),
                (PStr ''b'', PStr [])]) '',''
       = Inr (PStr ''a=x,b'')
   \<and> to_kv_pairs rt
        (PDict [(PStr ''b'', PStr []), (PStr ''c'', PList [PInt 1, PInt 2]),
                (PStr ''a'', PStr ''x'')]) '',''
       = Inr (PStr ''b,a=x'')"
proof (intro conjI impI)
  assume "\<not> truthy v"
  then show "to_kv_pairs rt (PDict [(k, v)]) sep = Inr (PStr (py_str rt k))"
    by (simp add: kv_kept_def kv_render_def)
next
  assume "truthy v \<and> is_scalar rt v"
  then show "to_kv_pairs rt (PDict [(k, v)]) sep = Inr (PStr (py_str rt k @ ''='' @ py_str rt v))"
    by (simp add: kv_kept_def kv_render_def)
next
  assume "truthy v \<and> \<not> is_scalar rt v"
  then show "to_kv_pairs rt (PDict [(k, v)]) sep = Inr (PStr [])"
    by (simp add: kv_kept_def)
qed (simp_all add: kv_kept_def kv_render_def)

lemma to_kv_pairs_example:
  "to_kv_pairs bare_runtime
     (PDict [(PStr ''port'', PInt 80), (PStr ''debug'', PBool False),
             (PStr ''tags'', PDict [(PStr ''x'', PNone)]), (PInt 7, PNone)]) '';''
     = Inr (PStr ''port=80;debug;7'')"
proof -
  let ?d = "[(PStr ''port'', PInt 80), (PStr ''debug'', PBool False),
             (PStr ''tags'', PDict [(PStr ''x'', PNone)]), (PInt 7, PNone)]"
  have n: "str_int 80 = ''80'' \<and> str_int 7 = ''7''"
    by (simp add: str_int_def str_nat.simps [of 80] str_nat.simps [of 8] str_nat.simps [of 7])
  have small: "\<forall>kv \<in> set ?d. \<forall>i. snd kv = PInt i \<longrightarrow> is_machine_int (rt_maxint bare_runtime) i"
    by (simp add: bare_runtime_def is_machine_int_def)
  have "py_join '';'' (map (kv_token bare_runtime) (filter kv_included ?d)) = ''port=80;debug;7''"
    using n by (simp add: kv_included_def kv_token_def)
  with to_kv_pairs_tokens [OF small, of "'';''"] show ?thesis by simp
qed

text \<open>
  Claim C6 does not hold of the code for an integer value that is a \<^verbatim>\<open>long\<close>. The
  integer \<^verbatim>\<open>2**70\<close> is a scalar and truthy, so the specification includes the entry and
  renders it as \<^verbatim>\<open>n=\<close> followed by its numeral, a token that is not empty. On an
  interpreter whose \<^verbatim>\<open>sys.maxint\<close> is \<^verbatim>\<open>2**63 - 1\<close> the number is a \<^verbatim>\<open>long\<close>, which
  \<^verbatim>\<open>scalar_types\<close> does not name: the code drops the entry and returns the empty string.
  The same entry with the value 5 is rendered \<^verbatim>\<open>n=5\<close>.
\<close>

theorem to_kv_pairs_drops_long:
  "to_kv_pairs bare_runtime (PDict [(PStr ''n'', PInt (2 ^ 70))]) '','' = Inr (PStr [])
   \<and> kv_included (PStr ''n'', PInt (2 ^ 70))
   \<and> py_join '','' (map (kv_token bare_runtime) (filter kv_included [(PStr ''n'', PInt (2 ^ 70))]))
       = ''n='' @ str_int (2 ^ 70)
   \<and> to_kv_pairs bare_runtime (PDict [(PStr ''n'', PInt (2 ^ 70))]) '',''
       \<noteq> Inr (PStr (py_join '',''
             (map (kv_token bare_runtime) (filter kv_included [(PStr ''n'', PInt (2 ^ 70))]))))
   \<and> to_kv_pairs bare_runtime (PDict [(PStr ''n'', PInt 5)]) '','' = Inr (PStr ''n=5'')"
proof (intro conjI)
  show code: "to_kv_pairs bare_runtime (PDict [(PStr ''n'', PInt (2 ^ 70))]) '','' = Inr (PStr [])"
    by (simp add: kv_kept_def bare_runtime_def is_machine_int_def)
  show "kv_included (PStr ''n'', PInt (2 ^ 70))"
    by (simp add: kv_included_def)
  show spec: "py_join '','' (map (kv_token bare_runtime)
        (filter kv_included [(PStr ''n'', PInt (2 ^ 70))])) = ''n='' @ str_int (2 ^ 70)"
    by (simp add: kv_included_def kv_token_def)
  show "to_kv_pairs bare_runtime (PDict [(PStr ''n'', PInt (2 ^ 70))]) '',''
       \<noteq> Inr (PStr (py_join '',''
             (map (kv_token bare_runtime) (filter kv_included [(PStr ''n'', PInt (2 ^ 70))]))))"
    unfolding code spec by simp
  show "to_kv_pairs bare_runtime (PDict [(PStr ''n'', PInt 5)]) '','' = Inr (PStr ''n=5'')"
    by (simp add: kv_kept_def kv_render_def bare_runtime_def is_machine_int_def
        str_int_def str_nat.simps [of 5])
qed

subsection \<open>\<^verbatim>\<open>map_keys\<close>\<close>

text \<open>
  The check of \<^verbatim>\<open>keys\<close> fails exactly when \<^verbatim>\<open>keys\<close> is neither \<^verbatim>\<open>'*'\<close> nor a list nor
  a set, and then with the \<^verbatim>\<open>AssertionError\<close> of the \<^verbatim>\<open>assert\<close> statement.
\<close>

lemma find_keys_assertion:
  "(\<exists>msg. find_keys d keys = Inl (AssertionError msg)) \<longleftrightarrow>
     keys \<noteq> PStr ''*'' \<and> (\<forall>ks. keys \<noteq> PList ks) \<and> (\<forall>ks. keys \<noteq> PSet ks)"
  by (cases keys; cases d) (auto simp: find_keys_def)

text \<open>
  Claim C4 does not hold of the code: a tuple of keys is an iterable collection of key
  identifiers, as the docstring of \<^verbatim>\<open>map_keys\<close> asks for, and the check
  \<^verbatim>\<open>isinstance(keys, (list, set))\<close> rejects it.
\<close>

theorem map_keys_rejects_tuple:
  "map_keys rt (PDict [(PStr ''aa'', PInt 1), (PStr ''bb'', PInt 2)])
     (PTuple [PStr ''aa'', PStr ''bb'']) PNone ''.'' False
     = Inl (AssertionError ''Expected an iterable of keys'')
   \<and> map_keys rt (PDict [(PStr ''aa'', PInt 1), (PStr ''bb'', PInt 2)])
     (PList [PStr ''aa'']) PNone ''.'' False
     = Inr (PDict [(PStr ''aa'', PInt 1)])"
  by (simp add: map_keys_def find_keys_def dict_setitem_def)

subsection \<open>The filters on a store\<close>

lemma extends_refl: "extends s s"
  by (simp add: extends_def)

lemma extends_length: "extends s s' \<Longrightarrow> length s \<le> length s'"
proof -
  assume "extends s s'"
  then have "length (take (length s) s') = length s"
    by (simp add: extends_def)
  then show ?thesis by simp
qed

lemma extends_trans: "extends s s' \<Longrightarrow> extends s' s'' \<Longrightarrow> extends s s''"
proof -
  assume a: "extends s s'" and b: "extends s' s''"
  from a have le: "length s \<le> length s'" by (rule extends_length)
  from b have "take (length s) (take (length s') s'') = take (length s) s'"
    by (simp add: extends_def)
  with le have "take (length s) s'' = take (length s) s'"
    by (simp add: min_def)
  with a show ?thesis by (simp add: extends_def)
qed

lemma extends_alloc: "alloc s ob = (s', a) \<Longrightarrow> extends s s' \<and> a = length s \<and> length s < length s'"
  by (auto simp: alloc_def extends_def)

lemma extends_update:
  "extends s0 s \<Longrightarrow> length s0 \<le> a \<Longrightarrow> extends s0 (s[a := ob])"
  by (simp add: extends_def)

lemma extends_append:
  "extends s0 s \<Longrightarrow> length s0 \<le> a \<Longrightarrow> extends s0 (fst (s_append s a y))"
  by (auto simp: s_append_def extends_update split: option.splits hobj.splits)

lemma extends_setitem:
  "extends s0 s \<Longrightarrow> length s0 \<le> a \<Longrightarrow> extends s0 (fst (s_setitem s a k x))"
  by (auto simp: s_setitem_def extends_update split: option.splits hobj.splits)

lemma extends_flatten:
  "extends s0 s \<Longrightarrow> length s0 \<le> pres \<Longrightarrow> extends s0 (fst (s_flatten n s pres y))"
  "extends s0 s \<Longrightarrow> length s0 \<le> pres \<Longrightarrow> extends s0 (fst (s_flatten_each n s pres ys))"
  "extends s0 s \<Longrightarrow> length s0 \<le> pres \<Longrightarrow> extends s0 (fst (s_flatten_from n s pres b i))"
proof (induction n s pres y and n s pres ys and n s pres b i
    rule: s_flatten_s_flatten_each_s_flatten_from.induct)
  case (2 n s pres y)
  then show ?case
    by (auto simp: extends_append split: hval.splits option.splits hobj.splits)
next
  case (5 n s pres yy ys)
  obtain s' r where r: "s_flatten n s pres yy = (s', r)" by (cases "s_flatten n s pres yy")
  with 5 have e: "extends s0 s'" by auto
  show ?case
  proof (cases r)
    case (Inl e')
    with r e show ?thesis by simp
  next
    case (Inr u)
    with r e 5 show ?thesis by simp
  qed
next
  case (7 n s pres b i)
  show ?case
  proof (cases "deref s b")
    case None
    with 7 show ?thesis by simp
  next
    case (Some ob)
    show ?thesis
    proof (cases ob)
      case (OList ys)
      show ?thesis
      proof (cases "i < length ys")
        case True
        obtain s' r where r: "s_flatten n s pres (ys ! i) = (s', r)"
          by (cases "s_flatten n s pres (ys ! i)")
        with 7 Some OList True have e: "extends s0 s'" by auto
        show ?thesis
        proof (cases r)
          case (Inl e')
          with r e Some OList True show ?thesis by simp
        next
          case (Inr u)
          with r e Some OList True 7 show ?thesis by simp
        qed
      next
        case False
        with 7 Some OList show ?thesis by simp
      qed
    qed (use 7 Some in simp_all)
  qed
qed simp_all

lemma extends_to_map_loop:
  "extends s0 s \<Longrightarrow> length s0 \<le> res \<Longrightarrow> extends s0 (fst (s_to_map_loop p res xs s))"
proof (induction xs arbitrary: s)
  case Nil
  then show ?case by simp
next
  case (Cons x xs)
  show ?case
  proof (cases "s_resolve s p x")
    case (Inl e)
    with Cons show ?thesis by simp
  next
    case (Inr k)
    show ?thesis
    proof (cases "s_truthy s k")
      case False
      with Inr Cons show ?thesis by simp
    next
      case True
      obtain s' r where r: "s_setitem s res k x = (s', r)" by (cases "s_setitem s res k x")
      from extends_setitem [OF Cons.prems, of k x] r have e: "extends s0 s'" by simp
      show ?thesis
      proof (cases r)
        case (Inl e')
        with r e Inr True show ?thesis by simp
      next
        case (Inr u)
        with r e \<open>s_resolve s p x = Inr k\<close> True Cons.IH [OF e Cons.prems(2)]
        show ?thesis by simp
      qed
    qed
  qed
qed

lemma extends_dict_comprehension:
  assumes g: "\<And>s kx. extends s (fst (g s kx))"
  shows "extends s0 s \<Longrightarrow> length s0 \<le> res \<Longrightarrow>
         extends s0 (fst (s_dict_comprehension g res ks s))"
proof (induction ks arbitrary: s)
  case Nil
  then show ?case by simp
next
  case (Cons kx ks)
  obtain s1 r1 where r1: "g s kx = (s1, r1)" by (cases "g s kx")
  from g [of s kx] r1 have "extends s s1" by simp
  with Cons.prems(1) have e1: "extends s0 s1" by (rule extends_trans)
  show ?case
  proof (cases r1)
    case (Inl e)
    with r1 e1 show ?thesis by simp
  next
    case (Inr v)
    obtain s2 r2 where r2: "s_setitem s1 res (fst kx) v = (s2, r2)"
      by (cases "s_setitem s1 res (fst kx) v")
    from extends_setitem [OF e1 Cons.prems(2), of "fst kx" v] r2 have e2: "extends s0 s2"
      by simp
    show ?thesis
    proof (cases r2)
      case (Inl e)
      with r1 Inr r2 e2 show ?thesis by simp
    next
      case (Inr u)
      with r1 \<open>r1 = Inr v\<close> r2 Cons.IH [OF e2 Cons.prems(2)] show ?thesis by simp
    qed
  qed
qed

lemma extends_one: "extends s (fst (s_one s l))"
  by (simp add: s_one_def extends_refl)

lemma extends_dict_list: "extends s (fst (s_dict_list part s d))"
  by (auto simp: s_dict_list_def extends_refl alloc_def extends_def
      split: hval.splits option.splits hobj.splits)

lemma extends_to_kv_pairs: "extends s (fst (s_to_kv_pairs rt s d sep))"
  by (simp add: s_to_kv_pairs_def extends_refl)

lemma extends_format_items: "extends s (fst (s_format_items rt s it fmt))"
  by (auto simp: s_format_items_def extends_refl alloc_def extends_def split: sum.splits)

lemma extends_filter_by_key: "extends s (fst (s_filter_by_key rt s l key op val))"
  by (auto simp: s_filter_by_key_def extends_refl alloc_def extends_def
      split: sum.splits option.splits hval.splits)

lemma extends_flatten_list: "extends s (fst (s_flatten_list n s l))"
proof -
  obtain s1 pres where a: "alloc s (OList []) = (s1, pres)" by (cases "alloc s (OList [])")
  from extends_alloc [OF a] have e1: "extends s s1" and p: "length s \<le> pres" by simp_all
  show ?thesis
  proof (cases "s_iter s1 l")
    case (Inl e)
    with a e1 show ?thesis by (simp add: s_flatten_list_def)
  next
    case (Inr ys)
    obtain s2 r where r: "s_flatten_each n s1 pres ys = (s2, r)"
      by (cases "s_flatten_each n s1 pres ys")
    from extends_flatten(2) [OF e1 p, of n ys] r have "extends s s2" by simp
    with a Inr r show ?thesis by (cases r) (simp_all add: s_flatten_list_def)
  qed
qed

lemma extends_to_map: "extends s (fst (s_to_map s l item_key path_delimiter))"
proof -
  obtain s1 res where a: "alloc s (ODict []) = (s1, res)" by (cases "alloc s (ODict [])")
  from extends_alloc [OF a] have e1: "extends s s1" and p: "length s \<le> res" by simp_all
  show ?thesis
  proof (cases "py_split item_key path_delimiter")
    case (Inl e)
    with a e1 show ?thesis by (simp add: s_to_map_def)
  next
    case (Inr pth)
    show ?thesis
    proof (cases "s_iter s1 l")
      case (Inl e)
      with a e1 Inr show ?thesis by (simp add: s_to_map_def)
    next
      case ys: (Inr xs)
      obtain s2 r where r: "s_to_map_loop pth res xs s1 = (s2, r)"
        by (cases "s_to_map_loop pth res xs s1")
      from extends_to_map_loop [OF e1 p, of pth xs] r have "extends s s2" by simp
      with a Inr ys r show ?thesis by (cases r) (simp_all add: s_to_map_def)
    qed
  qed
qed

lemma extends_find_keys: "extends s (fst (s_find_keys s d keys))"
  by (auto simp: s_find_keys_def extends_refl alloc_def extends_def
      split: hval.splits option.splits hobj.splits)

lemma extends_map_keys:
  assumes loads: "\<forall>s v. extends s (fst (srt_loads rt s v))"
  shows "extends s (fst (s_map_keys rt s d keys source_path path_delimiter decode_json))"
proof -
  obtain s1 r1 where r1: "s_find_keys s d keys = (s1, r1)" by (cases "s_find_keys s d keys")
  from extends_find_keys [of s d keys] r1 have e1: "extends s s1" by simp
  show ?thesis
  proof (cases r1)
    case (Inl e)
    with r1 e1 show ?thesis by (simp add: s_map_keys_def)
  next
    case (Inr ks)
    obtain s2 res where a: "alloc s1 (ODict []) = (s2, res)" by (cases "alloc s1 (ODict [])")
    from extends_alloc [OF a] have "extends s1 s2" and "length s1 \<le> res" by simp_all
    with e1 have e2: "extends s s2" and p: "length s \<le> res"
      using extends_trans extends_length [OF e1] by (blast, simp)
    let ?comp = "case source_path of
                   HStr sp \<Rightarrow>
                     s_dict_comprehension (s_source_value rt d sp path_delimiter) res
                       (map (\<lambda>k. (k, ())) ks) s2
                 | _ \<Rightarrow> s_dict_comprehension (s_plain_value d) res (map (\<lambda>k. (k, ())) ks) s2"
    obtain s3 r3 where r3: "?comp = (s3, r3)" by (cases ?comp)
    have "extends s (fst ?comp)"
    proof (cases source_path)
      case (HStr sp)
      have "extends s (fst (s_dict_comprehension (s_source_value rt d sp path_delimiter) res
                       (map (\<lambda>k. (k, ())) ks) s2))"
        by (rule extends_dict_comprehension [OF _ e2 p]) (simp add: s_source_value_def extends_refl)
      with HStr show ?thesis by simp
    next
      case HNone
      have "extends s (fst (s_dict_comprehension (s_plain_value d) res (map (\<lambda>k. (k, ())) ks) s2))"
        by (rule extends_dict_comprehension [OF _ e2 p]) (simp add: s_plain_value_def extends_refl)
      with HNone show ?thesis by simp
    next
      case (HBool b)
      have "extends s (fst (s_dict_comprehension (s_plain_value d) res (map (\<lambda>k. (k, ())) ks) s2))"
        by (rule extends_dict_comprehension [OF _ e2 p]) (simp add: s_plain_value_def extends_refl)
      with HBool show ?thesis by simp
    next
      case (HInt i)
      have "extends s (fst (s_dict_comprehension (s_plain_value d) res (map (\<lambda>k. (k, ())) ks) s2))"
        by (rule extends_dict_comprehension [OF _ e2 p]) (simp add: s_plain_value_def extends_refl)
      with HInt show ?thesis by simp
    next
      case (HTuple xs)
      have "extends s (fst (s_dict_comprehension (s_plain_value d) res (map (\<lambda>k. (k, ())) ks) s2))"
        by (rule extends_dict_comprehension [OF _ e2 p]) (simp add: s_plain_value_def extends_refl)
      with HTuple show ?thesis by simp
    next
      case (HRef a')
      have "extends s (fst (s_dict_comprehension (s_plain_value d) res (map (\<lambda>k. (k, ())) ks) s2))"
        by (rule extends_dict_comprehension [OF _ e2 p]) (simp add: s_plain_value_def extends_refl)
      with HRef show ?thesis by simp
    qed
    with r3 have e3: "extends s s3" by simp
    show ?thesis
    proof (cases r3)
      case (Inl e)
      with r1 \<open>r1 = Inr ks\<close> a r3 e3 show ?thesis by (simp add: s_map_keys_def)
    next
      case u: (Inr u)
      show ?thesis
      proof (cases decode_json)
        case False
        with r1 \<open>r1 = Inr ks\<close> a r3 u e3 show ?thesis by (simp add: s_map_keys_def)
      next
        case True
        obtain s4 res' where a': "alloc s3 (ODict []) = (s4, res')"
          by (cases "alloc s3 (ODict [])")
        from extends_alloc [OF a'] have "extends s3 s4" and "length s3 \<le> res'" by simp_all
        with e3 have e4: "extends s s4" and p': "length s \<le> res'"
          using extends_trans extends_length [OF e3] by (blast, simp)
        let ?dec = "s_dict_comprehension (s_decoded_value rt) res' (s_entries s4 res) s4"
        obtain s5 r5 where r5: "?dec = (s5, r5)" by (cases ?dec)
        have "extends s (fst ?dec)"
          by (rule extends_dict_comprehension [OF _ e4 p']) (simp add: s_decoded_value_def loads)
        with r5 have "extends s s5" by simp
        with r1 \<open>r1 = Inr ks\<close> a r3 u True a' r5 show ?thesis
          by (cases r5) (simp_all add: s_map_keys_def)
      qed
    qed
  qed
qed

lemma extends_deref:
  "extends s s' \<Longrightarrow> a < length s \<Longrightarrow> deref s' a = deref s a"
proof -
  assume e: "extends s s'" and a: "a < length s"
  from e have "take (length s) s' ! a = s ! a"
    by (simp add: extends_def)
  with a have "s' ! a = s ! a" by simp
  with a extends_length [OF e] show ?thesis by (simp add: deref_def)
qed

text \<open>
  The helper \<^verbatim>\<open>_flatten_list\<close> does write to the list it is given: called on a list
  of the store, it leaves that list longer. The filters below never hand it a list of
  the caller.
\<close>

lemma flatten_helper_writes_pres:
  "s_flatten (Suc 0) [OList [HInt 0]] 0 (HInt 1) = ([OList [HInt 0, HInt 1]], Inr ())"
  by (simp add: s_append_def deref_def)

text \<open>
  Claim C1. Every registered filter (\<^verbatim>\<open>one\<close>, \<^verbatim>\<open>to_map\<close>, \<^verbatim>\<open>format_items\<close>,
  \<^verbatim>\<open>flatten_list\<close>, \<^verbatim>\<open>list_values\<close>, \<^verbatim>\<open>list_keys\<close>, \<^verbatim>\<open>to_kv_pairs\<close>, \<^verbatim>\<open>map_keys\<close>,
  \<^verbatim>\<open>filter_by_key\<close>) leaves its arguments as they were: whatever the store \<open>s\<close> and the
  arguments, and whether the call returns or raises, every object of \<open>s\<close> is in the
  store after the call, at its address and unchanged. The only writes are to lists and
  dicts the filter has built itself. (\<^verbatim>\<open>json.loads\<close>, the interpreter's, is taken to
  build new objects only.) The result and the store left behind are functions of the
  store and the arguments: the model has no other state, and the operator tables are
  constants.
\<close>

theorem filters_leave_arguments_unchanged:
  "(\<forall>s v. extends s (fst (srt_loads rt s v))) \<longrightarrow>
     extends s (fst (s_one s l))
     \<and> extends s (fst (s_to_map s l item_key path_delimiter))
     \<and> extends s (fst (s_format_items rt s l fmt))
     \<and> extends s (fst (s_flatten_list n s l))
     \<and> extends s (fst (s_list_values s l))
     \<and> extends s (fst (s_list_keys s l))
     \<and> extends s (fst (s_to_kv_pairs rt s l sep))
     \<and> extends s (fst (s_map_keys rt s l keys source_path path_delimiter decode_json))
     \<and> extends s (fst (s_filter_by_key rt s l key op val))"
proof (intro impI conjI)
  show "extends s (fst (s_one s l))"
    by (rule extends_one)
  show "extends s (fst (s_to_map s l item_key path_delimiter))"
    by (rule extends_to_map)
  show "extends s (fst (s_format_items rt s l fmt))"
    by (rule extends_format_items)
  show "extends s (fst (s_flatten_list n s l))"
    by (rule extends_flatten_list)
  show "extends s (fst (s_list_values s l))"
    by (simp add: s_list_values_def extends_dict_list)
  show "extends s (fst (s_list_keys s l))"
    by (simp add: s_list_keys_def extends_dict_list)
  show "extends s (fst (s_to_kv_pairs rt s l sep))"
    by (rule extends_to_kv_pairs)
  show "extends s (fst (s_filter_by_key rt s l key op val))"
    by (rule extends_filter_by_key)
next
  assume "\<forall>s v. extends s (fst (srt_loads rt s v))"
  then show "extends s (fst (s_map_keys rt s l keys source_path path_delimiter decode_json))"
    by (rule extends_map_keys)
qed

theorem filters_leave_arguments_unchanged_witness:
  "s_flatten_list 9 [OList [HInt 1, HRef 1], OList [HTuple [HInt 2]], ODict [(HStr ''id'', HStr ''a'')]]
       (HRef 0)
     = ([OList [HInt 1, HRef 1], OList [HTuple [HInt 2]], ODict [(HStr ''id'', HStr ''a'')],
         OList [HInt 1, HInt 2]], Inr (HRef 3))
   \<and> s_to_map [OList [HInt 1, HRef 1], OList [HTuple [HInt 2]], ODict [(HStr ''id'', HStr ''a'')]]
       (HTuple [HRef 2]) ''id'' ''.''
     = ([OList [HInt 1, HRef 1], OList [HTuple [HInt 2]], ODict [(HStr ''id'', HStr ''a'')],
         ODict [(HStr ''a'', HRef 2)]], Inr (HRef 3))
   \<and> extends [OList [HInt 1, HRef 1], OList [HTuple [HInt 2]], ODict [(HStr ''id'', HStr ''a'')]]
       (fst (s_map_keys bare_sruntime
          [OList [HInt 1, HRef 1], OList [HTuple [HInt 2]], ODict [(HStr ''id'', HStr ''a'')]]
          (HRef 2) (HStr ''*'') HNone ''.'' True))"
proof -
  let ?s = "[OList [HInt 1, HRef 1], OList [HTuple [HInt 2]], ODict [(HStr ''id'', HStr ''a'')]]"
  have loads: "\<forall>s v. extends s (fst (srt_loads bare_sruntime s v))"
    by (simp add: bare_sruntime_def extends_def)
  note frame = filters_leave_arguments_unchanged
    [of bare_sruntime ?s "HRef 2" "''id''" "''.''" "''{0}''" 9 "'',''" "HStr ''*''" HNone True
      "HStr ''id''" "''exists''" HNone]
  from frame loads have mk: "extends ?s (fst (s_map_keys bare_sruntime ?s
          (HRef 2) (HStr ''*'') HNone ''.'' True))"
    by blast
  have fl: "s_flatten_list 9 ?s (HRef 0) = (?s @ [OList [HInt 1, HInt 2]], Inr (HRef 3))"
    by code_simp
  have sp: "py_split ''id'' ''.'' = Inr [''id'']"
    by code_simp
  have tm: "s_to_map ?s (HTuple [HRef 2]) ''id'' ''.''
      = (?s @ [ODict [(HStr ''a'', HRef 2)]], Inr (HRef 3))"
    using sp
    by (simp add: s_to_map_def alloc_def s_resolve_def s_key_step_def deref_def s_setitem_def)
  from fl tm mk show ?thesis by simp
qed

end
